theory Spec2Isabelle
  imports Complex_Main "HOL-Library.AList" "HOL-Library.Char_ord" "HOL-Library.List_Lexorder"
begin

section \<open>The mesh-state aggregation daemon (mesh\_simple.py)\<close>

text \<open>
  A shallow embedding of class \<open>SimpleMeshtasticBYOS\<close>. Python dictionaries keep their
  insertion order, and two operations of the daemon depend on it (the iteration of
  \<open>get_online_nodes\<close> and the slice of \<open>list(self.channels.values())\<close>), so every
  dictionary of the object is an association list: \<open>d[k] = v\<close> is \<open>AList.update k v d\<close>
  (an existing key keeps its position, a new key goes to the end) and \<open>d.get(k)\<close> is
  \<open>map_of d k\<close>. A key that a payload may lack is an \<open>option\<close> field, \<open>None\<close>
  standing for the missing key.

  Timestamps are epoch seconds. The transport delivers them as integers of any size; the
  clock (\<open>time.time()\<close>) is a real number, read at the resolution of \<open>datetime\<close>, a
  microsecond. The conversions between epoch seconds and the local clock are those of
  \<open>datetime\<close>, with the local zone as the parameter \<open>z\<close>; they raise on a date out of
  range.

  The payloads have the types the transport gives them (a number where the handlers
  compute with one, a string where they strip one, a dictionary where they call
  \<open>get\<close>). On such payloads the conversions of \<open>datetime\<close> are the only statements of
  the handlers that raise, and the \<open>except\<close> clause of a handler then leaves the stores
  as they were.
\<close>

subsection \<open>Configuration defaults\<close>

definition MAX_RECENT_MESSAGES :: nat where
  "MAX_RECENT_MESSAGES = 10"

definition MAX_RECONNECT_ATTEMPTS :: nat where
  "MAX_RECONNECT_ATTEMPTS = 5"

definition ONLINE_THRESHOLD_MINUTES :: int where
  "ONLINE_THRESHOLD_MINUTES = 30"

subsection \<open>Python values: \<open>str\<close>, \<open>strip\<close>, \<open>round\<close>\<close>

text \<open>An opaque dictionary that the daemon stores and never inspects (position, telemetry).\<close>

type_synonym pydict = "(string \<times> string) list"

text \<open>\<open>str(n)\<close> for an integer: decimal digits, with a minus sign when negative.\<close>

definition digit_char :: "nat \<Rightarrow> char" where
  "digit_char d = ''0123456789'' ! (d mod 10)"

fun str_nat :: "nat \<Rightarrow> string" where
  "str_nat n = (if n < 10 then [digit_char n] else str_nat (n div 10) @ [digit_char n])"

declare str_nat.simps [simp del]

definition str_int :: "int \<Rightarrow> string" where
  "str_int i = (if i < 0 then CHR ''-'' # str_nat (nat (- i)) else str_nat (nat i))"

text \<open>
  The characters \<open>str.strip()\<close> removes, among the code points below 256: the ASCII
  white space 9..13 and 32, the separators 28..31, and 133 and 160.
\<close>

definition py_isspace :: "char \<Rightarrow> bool" where
  "py_isspace c = (let n = (of_char c :: nat) in
     (9 \<le> n \<and> n \<le> 13) \<or> (28 \<le> n \<and> n \<le> 32) \<or> n = 133 \<or> n = 160)"

definition strip :: "string \<Rightarrow> string" where
  "strip s = rev (dropWhile py_isspace (rev (dropWhile py_isspace s)))"

text \<open>The truth value of \<open>t and t.strip()\<close> for a string \<open>t\<close>.\<close>

definition nonblank :: "string \<Rightarrow> bool" where
  "nonblank t = (t \<noteq> [] \<and> strip t \<noteq> [])"

text \<open>\<open>round(x, 1)\<close>: to one decimal place, a tie going to the even digit.\<close>

definition round1 :: "real \<Rightarrow> real" where
  "round1 x = (let y = x * 10; f = \<lfloor>y\<rfloor>; d = y - of_int f in
     of_int (if d < 1 / 2 then f else if 1 / 2 < d then f + 1
             else if even f then f else f + 1) / 10)"

subsection \<open>Errors\<close>

text \<open>
  The exceptions that the daemon's own statements can meet on well-typed payloads: a
  date outside the range of \<open>datetime\<close> (\<open>ValueError\<close>, \<open>OverflowError\<close> or
  \<open>OSError\<close>, according to the size of the number), and whatever \<open>requests.post\<close>
  raises. All are subclasses of \<open>Exception\<close>. A statement that may raise returns
  \<open>Inl\<close> the exception or \<open>Inr\<close> its value; \<open>and_then\<close> is the sequencing of
  statements, an exception ending the sequence.
\<close>

datatype error = OutOfRange | RequestException string

definition and_then :: "error + 'a \<Rightarrow> ('a \<Rightarrow> error + 'b) \<Rightarrow> error + 'b" where
  "and_then r f = (case r of Inl e \<Rightarrow> Inl e | Inr x \<Rightarrow> f x)"

subsection \<open>\<open>datetime\<close> on the local clock\<close>

text \<open>
  The local zone: the offset of the local clock from UTC, in seconds, at each epoch
  second (what the platform's \<open>localtime\<close> gives). A naive \<open>datetime\<close> is its reading
  of the local clock, in seconds since 1970-01-01 00:00:00 on that clock; \<open>datetime\<close>
  holds the years 1 to 9999.
\<close>

type_synonym zone = "int \<Rightarrow> int"

definition DATETIME_MIN :: int where
  "DATETIME_MIN = - 62135596800"

definition DATETIME_MAX :: int where
  "DATETIME_MAX = 253402300799"

text \<open>The local clock at an epoch second; it raises when the year is out of range.\<close>

definition local_seconds :: "zone \<Rightarrow> int \<Rightarrow> error + int" where
  "local_seconds z u =
     (let t = u + z u
      in if DATETIME_MIN \<le> t \<and> t \<le> DATETIME_MAX then Inr t else Inl OutOfRange)"

text \<open>
  \<open>datetime.fromtimestamp(t)\<close> without \<open>tzinfo\<close>, which is also what \<open>datetime.now()\<close>
  does with the reading of the clock. Besides the local clock at \<open>t\<close> it reads the local
  clock one day earlier (to tell the second pass of a repeated hour), and raises when
  either is out of range. The fraction of a second is carried over.
\<close>

definition fromtimestamp :: "zone \<Rightarrow> real \<Rightarrow> error + real" where
  "fromtimestamp z t =
     and_then (local_seconds z \<lfloor>t\<rfloor>) (\<lambda>w.
     and_then (local_seconds z (\<lfloor>t\<rfloor> - 86400)) (\<lambda>probe.
       Inr (of_int w + (t - of_int \<lfloor>t\<rfloor>))))"

text \<open>An epoch time that \<open>datetime.fromtimestamp\<close> accepts.\<close>

definition representable :: "zone \<Rightarrow> real \<Rightarrow> bool" where
  "representable z t = (case fromtimestamp z t of Inl e \<Rightarrow> False | Inr w \<Rightarrow> True)"

text \<open>A naive \<open>datetime\<close> minus a \<open>timedelta\<close> of \<open>d\<close> seconds; the result must be a
  \<open>datetime\<close>.\<close>

definition minus_timedelta :: "real \<Rightarrow> int \<Rightarrow> error + real" where
  "minus_timedelta w d =
     (let r = w - of_int d
      in if of_int DATETIME_MIN \<le> r \<and> r < of_int DATETIME_MAX + 1 then Inr r
         else Inl OutOfRange)"

text \<open>
  \<open>datetime.timestamp()\<close> of a naive \<open>datetime\<close>, the result of an arithmetic operation
  (so its \<open>fold\<close> is 0), on whole seconds: the search of the library for an epoch second
  \<open>u\<close> whose local clock is \<open>t\<close>. It tries the offset \<open>a\<close> found at \<open>t\<close> read as an
  epoch second, then the offset \<open>b\<close> found one day before or at the first candidate. A
  local time that the clock repeats gets its first occurrence; one that the clock skips
  gets the later of the two candidates.
\<close>

definition naive_mktime :: "zone \<Rightarrow> int \<Rightarrow> error + int" where
  "naive_mktime z t =
     and_then (local_seconds z t) (\<lambda>lt.
       let a = lt - t; u1 = t - a
       in and_then (local_seconds z u1) (\<lambda>t1.
            and_then (if t1 = t
                      then and_then (local_seconds z (u1 - 86400))
                             (\<lambda>lt2. Inr (lt2 - (u1 - 86400)))
                      else Inr (t1 - u1)) (\<lambda>b.
              if t1 = t \<and> a = b then Inr u1
              else let u2 = t - b
                   in and_then (local_seconds z u2) (\<lambda>t2.
                        if t2 = t then Inr u2
                        else if t1 = t then Inr u1
                        else Inr (max u1 u2)))))"

text \<open>
  \<open>timestamp()\<close> returns a float, the whole seconds plus the microseconds; between
  two integers it stays strictly between them, so its comparison with an integer
  last-heard time is that of the exact value, which the model returns.
\<close>

definition timestamp :: "zone \<Rightarrow> real \<Rightarrow> error + real" where
  "timestamp z w =
     and_then (naive_mktime z \<lfloor>w\<rfloor>) (\<lambda>u. Inr (of_int u + (w - of_int \<lfloor>w\<rfloor>)))"

text \<open>\<open>'%02d'\<close> and the two \<open>strftime\<close> formats of the daemon, of a naive \<open>datetime\<close>.\<close>

definition fmt2 :: "int \<Rightarrow> string" where
  "fmt2 n = [digit_char (nat n div 10), digit_char (nat n)]"

definition strftime_HM :: "real \<Rightarrow> string" where
  "strftime_HM w = fmt2 ((\<lfloor>w\<rfloor> div 3600) mod 24) @ '':'' @ fmt2 ((\<lfloor>w\<rfloor> div 60) mod 60)"

definition strftime_HMS :: "real \<Rightarrow> string" where
  "strftime_HMS w = strftime_HM w @ '':'' @ fmt2 (\<lfloor>w\<rfloor> mod 60)"

subsection \<open>The data model\<close>

text \<open>The payload of a node-updated event, as the transport delivers it.\<close>

record user_info =
  u_longName :: "string option"
  u_shortName :: "string option"

record node_payload =
  p_num :: "int option"
  p_user :: "user_info option"
  p_lastHeard :: "int option"
  p_snr :: "real option"
  p_position :: "pydict option"
  p_deviceMetrics :: "pydict option"

text \<open>An entry of the Node Registry \<open>self.nodes\<close>.\<close>

record node =
  n_id :: int
  n_longName :: string
  n_shortName :: string
  n_lastHeard :: int
  n_snr :: real
  n_position :: pydict
  n_telemetry :: pydict

text \<open>An entry of the Message History \<open>self.recent_messages\<close>.\<close>

record message =
  m_text :: string
  m_from :: string
  m_from_id :: string
  m_channel :: int
  m_time :: string
  m_timestamp :: real

text \<open>
  \<open>m_timestamp\<close> is the naive \<open>datetime\<close> whose \<open>isoformat()\<close> rendering the source
  stores; the rendering itself is not modelled.
\<close>

text \<open>An entry of the Channel Registry \<open>self.channels\<close>.\<close>

record channel =
  c_index :: nat
  c_name :: string
  c_psk :: bool
  c_role :: string

text \<open>The object state: the attributes of \<open>SimpleMeshtasticBYOS\<close> that the daemon reads and writes.\<close>

record state =
  interface :: bool
  running :: bool
  recent_messages :: "message list"
  nodes :: "(int \<times> node) list"
  channels :: "(nat \<times> channel) list"
  message_stats :: "(string \<times> int) list"

text \<open>\<open>__init__\<close>: no transport handle, not running, every store empty.\<close>

definition init_state :: state where
  "init_state = \<lparr>interface = False, running = False, recent_messages = [], nodes = [],
     channels = [], message_stats = []\<rparr>"

subsection \<open>The node-updated event\<close>

definition dict_get :: "'a option \<Rightarrow> 'a \<Rightarrow> 'a" where
  "dict_get v d = (case v of None \<Rightarrow> d | Some x \<Rightarrow> x)"

text \<open>The dictionary that \<open>on_node_updated\<close> builds for a payload with identifier \<open>node_id\<close>.\<close>

definition parse_node :: "int \<Rightarrow> node_payload \<Rightarrow> node" where
  "parse_node node_id p =
     (let user_info = dict_get (p_user p) \<lparr>u_longName = None, u_shortName = None\<rparr>
      in \<lparr>n_id = node_id,
          n_longName = dict_get (u_longName user_info) ''Unknown'',
          n_shortName = dict_get (u_shortName user_info) ''UNK'',
          n_lastHeard = dict_get (p_lastHeard p) 0,
          n_snr = dict_get (p_snr p) 0,
          n_position = dict_get (p_position p) [],
          n_telemetry = dict_get (p_deviceMetrics p) []\<rparr>)"

definition on_node_updated :: "state \<Rightarrow> node_payload \<Rightarrow> state" where
  "on_node_updated s p =
     (let node_id = dict_get (p_num p) 0
      in if node_id \<noteq> 0
         then s\<lparr>nodes := AList.update node_id (parse_node node_id p) (nodes s)\<rparr>
         else s)"

text \<open>A sequence of node-updated events, processed in order.\<close>

definition process_node_events :: "state \<Rightarrow> node_payload list \<Rightarrow> state" where
  "process_node_events s ps = foldl on_node_updated s ps"

text \<open>\<open>update_node_data\<close>: with a transport handle, every node of the transport's table
  (\<open>self.interface.nodes\<close>, here the list of its values) goes through \<open>on_node_updated\<close>.\<close>

definition update_node_data :: "state \<Rightarrow> node_payload list \<Rightarrow> state" where
  "update_node_data s transport_nodes =
     (if \<not> interface s then s else foldl on_node_updated s transport_nodes)"

subsection \<open>The packet-received event\<close>

text \<open>
  The value under \<open>'decoded'\<close>. An object may carry an attribute \<open>text\<close>, and an attribute
  \<open>data\<close> that may itself carry an attribute \<open>text\<close>; a dictionary may carry a key
  \<open>'text'\<close>. A dictionary has neither attribute.
\<close>

datatype decoded =
    DecodedObject "string option" "string option option"
  | DecodedDict "string option"

record packet =
  pk_decoded :: "decoded option"
  pk_fromId :: "string option"
  pk_from :: "int option"
  pk_channel :: "int option"
  pk_rxTime :: "int option"
  pk_time :: "int option"

text \<open>The \<open>if\<close>/\<open>elif\<close> chain of \<open>on_receive\<close>; \<open>None\<close> is Python's \<open>None\<close>.\<close>

fun message_text :: "decoded \<Rightarrow> string option" where
  "message_text (DecodedObject (Some t) data) = Some t"
| "message_text (DecodedDict (Some t)) = Some t"
| "message_text (DecodedObject None (Some (Some t))) = Some t"
| "message_text _ = None"

text \<open>\<open>str(packet.get('fromId', packet.get('from', 'Unknown')))\<close>\<close>

definition from_id_str :: "packet \<Rightarrow> string" where
  "from_id_str packet =
     (case pk_fromId packet of
        Some i \<Rightarrow> i
      | None \<Rightarrow> (case pk_from packet of Some n \<Rightarrow> str_int n | None \<Rightarrow> ''Unknown''))"

text \<open>\<open>packet.get('rxTime', packet.get('time', time.time()))\<close>, the clock reading being \<open>now\<close>.\<close>

definition rx_time_of :: "real \<Rightarrow> packet \<Rightarrow> real" where
  "rx_time_of now packet =
     (case pk_rxTime packet of
        Some t \<Rightarrow> of_int t
      | None \<Rightarrow> (case pk_time packet of Some t \<Rightarrow> of_int t | None \<Rightarrow> now))"

text \<open>\<open>deque(maxlen=MAX_RECENT_MESSAGES).append\<close>: append on the right, then drop the
  leftmost element if the length exceeds \<open>maxlen\<close>.\<close>

definition deque_append :: "'a list \<Rightarrow> 'a \<Rightarrow> 'a list" where
  "deque_append d x =
     (let d' = d @ [x] in if MAX_RECENT_MESSAGES < length d' then tl d' else d')"

text \<open>\<open>defaultdict(int)\<close>: a missing key reads as 0; \<open>stats[k] += 1\<close>.\<close>

definition stats_get :: "(string \<times> int) list \<Rightarrow> string \<Rightarrow> int" where
  "stats_get stats k = dict_get (map_of stats k) 0"

definition stats_incr :: "(string \<times> int) list \<Rightarrow> string \<Rightarrow> (string \<times> int) list" where
  "stats_incr stats k = AList.update k (stats_get stats k + 1) stats"

text \<open>
  The dictionary \<open>message_data\<close> that \<open>on_receive\<close> builds for a packet with text, in
  the order of the source: \<open>datetime.fromtimestamp(rx_time)\<close> may raise.
\<close>

definition message_data :: "zone \<Rightarrow> real \<Rightarrow> state \<Rightarrow> packet \<Rightarrow> string \<Rightarrow> error + message" where
  "message_data z now s packet text =
     (let from_id = from_id_str packet;
          channel = dict_get (pk_channel packet) 0;
          rx_time = rx_time_of now packet
      in and_then (fromtimestamp z rx_time) (\<lambda>timestamp.
           let from_num = dict_get (pk_from packet) 0;
               display_name = (case map_of (nodes s) from_num of
                                 None \<Rightarrow> from_id
                               | Some node_info \<Rightarrow> n_shortName node_info)
           in Inr \<lparr>m_text = text, m_from = display_name, m_from_id = from_id,
                   m_channel = channel, m_time = strftime_HM timestamp,
                   m_timestamp = timestamp\<rparr>))"

text \<open>\<open>on_receive\<close>: an exception of the \<open>try\<close> block is logged, the stores untouched.\<close>

definition on_receive :: "zone \<Rightarrow> real \<Rightarrow> state \<Rightarrow> packet \<Rightarrow> state" where
  "on_receive z now s packet =
     (let decoded = dict_get (pk_decoded packet) (DecodedDict None)
      in case message_text decoded of
           None \<Rightarrow> s
         | Some text \<Rightarrow>
             if nonblank text
             then (case message_data z now s packet text of
                     Inl e \<Rightarrow> s
                   | Inr message \<Rightarrow>
                       s\<lparr>recent_messages := deque_append (recent_messages s) message,
                         message_stats :=
                           stats_incr (stats_incr (message_stats s) (from_id_str packet))
                             ''total''\<rparr>)
             else s)"

text \<open>A sequence of packet-received events, each with the clock reading at its arrival.\<close>

definition process_packets :: "zone \<Rightarrow> state \<Rightarrow> (real \<times> packet) list \<Rightarrow> state" where
  "process_packets z s evs = foldl (\<lambda>s (now, packet). on_receive z now s packet) s evs"

text \<open>The messages that a sequence of packet-received events appends, in order of arrival.\<close>

definition appended :: "zone \<Rightarrow> state \<Rightarrow> (real \<times> packet) list \<Rightarrow> message list" where
  "appended z s evs =
     concat (map (\<lambda>(now, packet).
        case message_text (dict_get (pk_decoded packet) (DecodedDict None)) of
          None \<Rightarrow> []
        | Some text \<Rightarrow>
            if nonblank text
            then (case message_data z now s packet text of Inl e \<Rightarrow> [] | Inr m \<Rightarrow> [m])
            else []) evs)"

text \<open>The sum of the per-sender counters: every key of the statistics but \<open>'total'\<close>.\<close>

definition sender_sum :: "(string \<times> int) list \<Rightarrow> int" where
  "sender_sum stats = sum_list (map snd (filter (\<lambda>kv. fst kv \<noteq> ''total'') stats))"

text \<open>The text that \<open>on_receive\<close> extracts from a packet, if any.\<close>

definition packet_text :: "packet \<Rightarrow> string option" where
  "packet_text packet = message_text (dict_get (pk_decoded packet) (DecodedDict None))"

text \<open>A packet that \<open>on_receive\<close> retains: its text passes \<open>t and t.strip()\<close> and its
  receive time is a date of \<open>datetime\<close>.\<close>

definition accepted :: "zone \<Rightarrow> real \<Rightarrow> packet \<Rightarrow> bool" where
  "accepted z now packet =
     (case packet_text packet of
        None \<Rightarrow> False
      | Some t \<Rightarrow>
          nonblank t
          \<and> (case fromtimestamp z (rx_time_of now packet) of Inl e \<Rightarrow> False | Inr w \<Rightarrow> True))"

text \<open>The last \<open>n\<close> elements of a list.\<close>

definition lastn :: "nat \<Rightarrow> 'a list \<Rightarrow> 'a list" where
  "lastn n xs = drop (length xs - n) xs"

text \<open>The statistics are a dictionary (distinct keys) whose \<open>'total'\<close> is the sum of the
  other counters.\<close>

definition stats_ok :: "(string \<times> int) list \<Rightarrow> bool" where
  "stats_ok stats = (distinct (map fst stats) \<and> stats_get stats ''total'' = sender_sum stats)"

subsection \<open>The channel refresh\<close>

text \<open>
  What \<open>self.interface.getMyNodeInfo()\<close> returns: a channel object may have an attribute
  \<open>settings\<close> (with optional attributes \<open>name\<close> and \<open>psk\<close>, the latter a byte string)
  and an attribute \<open>role\<close>. The local node is \<open>None\<close> when falsy; otherwise it is its
  attribute \<open>channels\<close>, if it has one.
\<close>

record channel_settings =
  st_name :: "string option"
  st_psk :: "nat list option"

record channel_obj =
  ch_settings :: "channel_settings option"
  ch_role :: "string option"

type_synonym local_node = "channel_obj list option"

text \<open>The entry written for the channel at position \<open>i\<close>, when it is written.\<close>

definition channel_entry :: "nat \<Rightarrow> channel_obj \<Rightarrow> channel option" where
  "channel_entry i ch =
     (case ch_settings ch of
        None \<Rightarrow> None
      | Some settings \<Rightarrow>
          (let name = dict_get (st_name settings) (''Channel '' @ str_nat i)
           in if nonblank name
              then Some \<lparr>c_index = i, c_name = name,
                         c_psk = (0 < length (dict_get (st_psk settings) [])),
                         c_role = dict_get (ch_role ch) ''secondary''\<rparr>
              else None))"

text \<open>The loop \<open>for i, channel in enumerate(channels)\<close>, on the registry and \<open>channels_found\<close>.\<close>

fun scan_channels ::
  "nat \<Rightarrow> channel_obj list \<Rightarrow> (nat \<times> channel) list \<times> nat \<Rightarrow> (nat \<times> channel) list \<times> nat" where
  "scan_channels i [] acc = acc"
| "scan_channels i (ch # chs) (reg, channels_found) =
     scan_channels (Suc i) chs
       (case channel_entry i ch of
          None \<Rightarrow> (reg, channels_found)
        | Some c \<Rightarrow> (AList.update i c reg, channels_found + 1))"

definition default_channel :: channel where
  "default_channel = \<lparr>c_index = 0, c_name = ''Default'', c_psk = True, c_role = ''primary''\<rparr>"

definition update_channel_data :: "state \<Rightarrow> local_node option \<Rightarrow> state" where
  "update_channel_data s local_node =
     (if \<not> interface s then s
      else let (reg, channels_found) =
                 (case local_node of
                    Some (Some chs) \<Rightarrow> scan_channels 0 chs (channels s, 0)
                  | _ \<Rightarrow> (channels s, 0))
           in if channels_found = 0
              then s\<lparr>channels := AList.update 0 default_channel reg\<rparr>
              else s\<lparr>channels := reg\<rparr>)"

text \<open>The entries that the loop writes, with their positions, in the order of the report.\<close>

fun reported_from :: "nat \<Rightarrow> channel_obj list \<Rightarrow> (nat \<times> channel) list" where
  "reported_from i [] = []"
| "reported_from i (ch # chs) =
     (case channel_entry i ch of
        None \<Rightarrow> reported_from (Suc i) chs
      | Some c \<Rightarrow> (i, c) # reported_from (Suc i) chs)"

text \<open>
  The vocabulary of the specification of the refresh. The channels that the transport
  reports: those of the local node, none when there is no local node or it has no
  channel list. A reported channel is named when it has settings and its name (the
  fallback \<open>Channel i\<close> when the settings have none) is not blank.
\<close>

definition channels_of :: "local_node option \<Rightarrow> channel_obj list" where
  "channels_of local_node = (case local_node of Some (Some chs) \<Rightarrow> chs | _ \<Rightarrow> [])"

definition has_name :: "channel_obj list \<Rightarrow> nat \<Rightarrow> bool" where
  "has_name chs i =
     (i < length chs
      \<and> (case ch_settings (chs ! i) of
           None \<Rightarrow> False
         | Some settings \<Rightarrow>
             nonblank (case st_name settings of
                         None \<Rightarrow> ''Channel '' @ str_nat i
                       | Some name \<Rightarrow> name)))"

text \<open>\<open>on_connection\<close>: both stores are refreshed from the transport.\<close>

definition on_connection :: "state \<Rightarrow> node_payload list \<Rightarrow> local_node option \<Rightarrow> state" where
  "on_connection s transport_nodes local_node =
     update_channel_data (update_node_data s transport_nodes) local_node"

subsection \<open>The Online Classifier\<close>

record display_node =
  d_name :: string
  d_longName :: string
  d_lastHeard :: string
  d_snr :: real
  d_id :: int

text \<open>The record appended for a registry entry that passes the test, \<open>last_heard_time\<close>
  being its last-heard time on the local clock.\<close>

definition display_of :: "real \<Rightarrow> int \<Rightarrow> node \<Rightarrow> display_node" where
  "display_of last_heard_time node_id node =
     \<lparr>d_name = n_shortName node, d_longName = n_longName node,
      d_lastHeard = strftime_HM last_heard_time, d_snr = round1 (n_snr node),
      d_id = node_id\<rparr>"

text \<open>The loop \<open>for node_id, node in self.nodes.items()\<close>; \<open>datetime.fromtimestamp\<close>
  raises on a last-heard time out of range, and the loop with it.\<close>

fun collect_online :: "zone \<Rightarrow> real \<Rightarrow> (int \<times> node) list \<Rightarrow> error + display_node list" where
  "collect_online z threshold_timestamp [] = Inr []"
| "collect_online z threshold_timestamp ((node_id, node) # rest) =
     (if threshold_timestamp < of_int (n_lastHeard node)
      then and_then (fromtimestamp z (of_int (n_lastHeard node))) (\<lambda>last_heard_time.
           and_then (collect_online z threshold_timestamp rest) (\<lambda>online_nodes.
             Inr (display_of last_heard_time node_id node # online_nodes)))
      else collect_online z threshold_timestamp rest)"

text \<open>
  \<open>list.sort(key=..., reverse=True)\<close>: a stable sort in descending order of the key;
  elements with equal keys keep their order (the list is reversed, sorted, and reversed
  again).
\<close>

definition sort_reverse :: "('a \<Rightarrow> 'k::linorder) \<Rightarrow> 'a list \<Rightarrow> 'a list" where
  "sort_reverse key xs = rev (sort_key key (rev xs))"

text \<open>
  \<open>threshold_timestamp\<close>: the reading of the local clock, minus 30 minutes on that clock,
  converted back to epoch seconds.
\<close>

definition threshold_timestamp :: "zone \<Rightarrow> real \<Rightarrow> error + real" where
  "threshold_timestamp z now =
     and_then (fromtimestamp z now) (\<lambda>now_local.
     and_then (minus_timedelta now_local (ONLINE_THRESHOLD_MINUTES * 60)) (\<lambda>threshold.
       timestamp z threshold))"

definition get_online_nodes :: "zone \<Rightarrow> real \<Rightarrow> state \<Rightarrow> error + display_node list" where
  "get_online_nodes z now s =
     and_then (threshold_timestamp z now) (\<lambda>threshold_timestamp.
     and_then (collect_online z threshold_timestamp (nodes s)) (\<lambda>online_nodes.
       Inr (sort_reverse d_lastHeard online_nodes)))"

subsection \<open>The Snapshot Builder\<close>

record message_summary =
  ms_total :: int
  ms_recent :: "message list"
  ms_active_users :: "nat option"

definition get_message_summary :: "state \<Rightarrow> message_summary" where
  "get_message_summary s =
     (if recent_messages s = [] then \<lparr>ms_total = 0, ms_recent = [], ms_active_users = None\<rparr>
      else let recent_list = rev (recent_messages s)
           in \<lparr>ms_total = stats_get (message_stats s) ''total'',
               ms_recent = take 10 recent_list,
               ms_active_users =
                 Some (length (filter (\<lambda>(k, v). k \<noteq> ''total'' \<and> 0 < v) (message_stats s)))\<rparr>)"

record network_stats =
  ns_total_nodes :: nat
  ns_online_nodes :: nat
  ns_channels :: nat
  ns_last_update :: string

definition get_network_stats :: "zone \<Rightarrow> real \<Rightarrow> state \<Rightarrow> error + network_stats" where
  "get_network_stats z now s =
     and_then (get_online_nodes z now s) (\<lambda>online_nodes.
     and_then (fromtimestamp z now) (\<lambda>now_local.
       Inr \<lparr>ns_total_nodes = length (nodes s), ns_online_nodes = length online_nodes,
            ns_channels = length (channels s), ns_last_update = strftime_HMS now_local\<rparr>))"

text \<open>
  The published document. \<open>sn_timestamp\<close> is the naive \<open>datetime\<close> whose \<open>isoformat()\<close>
  rendering the source stores. The clock is read several times while a snapshot is
  built; the model takes one reading \<open>now\<close> for all of them.
\<close>

record snapshot =
  sn_network_stats :: network_stats
  sn_online_nodes :: "display_node list"
  sn_recent_messages :: "message list"
  sn_message_stats_total :: int
  sn_channels :: "channel list"
  sn_status :: string
  sn_timestamp :: real
  sn_platform :: string
  sn_meshtastic_device :: string

definition prepare_display_data :: "zone \<Rightarrow> real \<Rightarrow> state \<Rightarrow> error + snapshot" where
  "prepare_display_data z now s =
     and_then (get_online_nodes z now s) (\<lambda>online_nodes.
       let message_summary = get_message_summary s
       in and_then (get_network_stats z now s) (\<lambda>network_stats.
          and_then (fromtimestamp z now) (\<lambda>now_local.
            Inr \<lparr>sn_network_stats = network_stats,
                 sn_online_nodes = take 12 online_nodes,
                 sn_recent_messages = take 10 (ms_recent message_summary),
                 sn_message_stats_total = ms_total message_summary,
                 sn_channels = take 6 (map snd (channels s)),
                 sn_status = (if interface s then ''connected'' else ''disconnected''),
                 sn_timestamp = now_local,
                 sn_platform = ''Raspberry Pi'',
                 sn_meshtastic_device = ''Heltec v3''\<rparr>)))"

subsection \<open>The Sync Client\<close>

text \<open>
  \<open>requests.post\<close> either returns a response or raises (connection error, timeout, a
  document that does not serialise): the sink is a function from the posted document to
  \<open>Inr\<close> a response or \<open>Inl\<close> the text of the exception.
\<close>

record response =
  status_code :: int
  response_text :: string

type_synonym sink = "snapshot \<Rightarrow> string + response"

text \<open>The \<open>try\<close> block of \<open>send_to_byos\<close>, then the whole method with its handler.\<close>

definition send_to_byos_try :: "zone \<Rightarrow> real \<Rightarrow> state \<Rightarrow> sink \<Rightarrow> error + bool" where
  "send_to_byos_try z now s post =
     and_then (prepare_display_data z now s) (\<lambda>data.
       case post data of
         Inl e \<Rightarrow> Inl (RequestException e)
       | Inr response \<Rightarrow>
           if status_code response \<in> set [200, 201] then Inr True else Inr False)"

definition send_to_byos :: "zone \<Rightarrow> real \<Rightarrow> state \<Rightarrow> sink \<Rightarrow> bool" where
  "send_to_byos z now s post =
     (case send_to_byos_try z now s post of Inl e \<Rightarrow> False | Inr b \<Rightarrow> b)"

subsection \<open>The Connection Lifecycle Manager\<close>

text \<open>\<open>connect\<close>: \<open>ok\<close> tells whether opening the serial interface succeeds. (The
  transport then publishes the connection-established event, which \<open>on_connection\<close>
  handles on the transport's side.)\<close>

definition connect :: "bool \<Rightarrow> state \<Rightarrow> bool \<times> state" where
  "connect ok s = (if ok then (True, s\<lparr>interface := True\<rparr>) else (False, s))"

text \<open>\<open>disconnect\<close> closes the handle; the attribute \<open>self.interface\<close> keeps its value.\<close>

definition disconnect :: "state \<Rightarrow> state" where
  "disconnect s = s"

text \<open>
  What one iteration of the main loop meets: the outcome of \<open>connect()\<close> should it be
  called, whether a termination signal arrives during the iteration (the handler then
  clears \<open>self.running\<close>, which the loop reads at its next test), the transport's node
  table, the sink and the clock. Every call of the loop body absorbs its own exceptions
  and the handler installed for SIGINT replaces \<open>KeyboardInterrupt\<close>, so the two
  \<open>except\<close> clauses of the loop are not entered.
\<close>

record cycle_env =
  e_connect_ok :: bool
  e_signalled :: bool
  e_transport_nodes :: "node_payload list"
  e_sink :: sink
  e_now :: real

text \<open>The loop's variables: the object, the local \<open>reconnect_attempts\<close>, and a count of
  the calls of \<open>connect()\<close> made so far (an observation, not a variable of the source).\<close>

record loop_state =
  ls_self :: state
  reconnect_attempts :: nat
  connect_calls :: nat

datatype control = Continue | Break

definition signal :: "cycle_env \<Rightarrow> loop_state \<Rightarrow> loop_state" where
  "signal e l = (if e_signalled e then l\<lparr>ls_self := (ls_self l)\<lparr>running := False\<rparr>\<rparr> else l)"

text \<open>The part of the body after the connection test: refresh, publish, sleep. The
  result of the publication is not used, and the sleep changes nothing but the time.\<close>

definition cycle :: "zone \<Rightarrow> cycle_env \<Rightarrow> loop_state \<Rightarrow> control \<times> loop_state" where
  "cycle z e l =
     (let s1 = update_node_data (ls_self l) (e_transport_nodes e);
          sent = send_to_byos z (e_now e) s1 (e_sink e)
      in (Continue, signal e (l\<lparr>ls_self := s1\<rparr>)))"

definition loop_body :: "zone \<Rightarrow> cycle_env \<Rightarrow> loop_state \<Rightarrow> control \<times> loop_state" where
  "loop_body z e l =
     (if \<not> interface (ls_self l)
      then (let (ok, s1) = connect (e_connect_ok e) (ls_self l);
                l1 = l\<lparr>ls_self := s1, connect_calls := connect_calls l + 1\<rparr>
            in if ok then cycle z e (l1\<lparr>reconnect_attempts := 0\<rparr>)
               else (let l2 = l1\<lparr>reconnect_attempts := reconnect_attempts l1 + 1\<rparr>
                     in if MAX_RECONNECT_ATTEMPTS \<le> reconnect_attempts l2 then (Break, l2)
                        else (Continue, signal e l2)))
      else cycle z e l)"

text \<open>
  \<open>while self.running\<close>, one element of the list for each iteration. The loop may run
  for ever: \<open>None\<close> says that it is still running when the list is used up.
\<close>

fun while_running :: "zone \<Rightarrow> cycle_env list \<Rightarrow> loop_state \<Rightarrow> loop_state option" where
  "while_running z [] l = (if running (ls_self l) then None else Some l)"
| "while_running z (e # es) l =
     (if \<not> running (ls_self l) then Some l
      else (case loop_body z e l of
              (Break, l') \<Rightarrow> Some l'
            | (Continue, l') \<Rightarrow> while_running z es l'))"

definition run_update_loop :: "zone \<Rightarrow> cycle_env list \<Rightarrow> state \<Rightarrow> loop_state option" where
  "run_update_loop z es s =
     map_option (\<lambda>l. l\<lparr>ls_self := disconnect ((ls_self l)\<lparr>running := False\<rparr>)\<rparr>)
       (while_running z es
          \<lparr>ls_self = s\<lparr>running := True\<rparr>, reconnect_attempts = 0, connect_calls = 0\<rparr>)"

text \<open>What holds at every test of the loop: \<open>connect()\<close> has been called at most
  \<open>MAX_RECONNECT_ATTEMPTS\<close> times, and while there is no transport handle every call so
  far has failed and fewer than \<open>MAX_RECONNECT_ATTEMPTS\<close> have.\<close>

definition loop_inv :: "loop_state \<Rightarrow> bool" where
  "loop_inv l = (connect_calls l \<le> MAX_RECONNECT_ATTEMPTS
     \<and> (\<not> interface (ls_self l)
        \<longrightarrow> connect_calls l = reconnect_attempts l
          \<and> reconnect_attempts l < MAX_RECONNECT_ATTEMPTS))"

subsection \<open>Concrete inputs\<close>

text \<open>A node payload with a short name and a last-heard time, every other key missing.\<close>

definition example_payload :: "int option \<Rightarrow> string \<Rightarrow> int \<Rightarrow> node_payload" where
  "example_payload num short heard =
     \<lparr>p_num = num, p_user = Some \<lparr>u_longName = None, u_shortName = Some short\<rparr>,
      p_lastHeard = Some heard, p_snr = None, p_position = None, p_deviceMetrics = None\<rparr>"

text \<open>A packet whose \<open>decoded\<close> dictionary carries a text, received at time 0.\<close>

definition example_packet :: "string \<Rightarrow> string option \<Rightarrow> packet" where
  "example_packet text from_id =
     \<lparr>pk_decoded = Some (DecodedDict (Some text)), pk_fromId = from_id, pk_from = None,
      pk_channel = None, pk_rxTime = Some 0, pk_time = None\<rparr>"

text \<open>\<open>n\<close> packets from one sender, the \<open>i\<close>-th with the text \<open>'m' + str(i)\<close>.\<close>

definition example_events :: "nat \<Rightarrow> (real \<times> packet) list" where
  "example_events n =
     map (\<lambda>i. (0, example_packet (CHR ''m'' # str_nat i) (Some ''!a''))) [0..<n]"


text \<open>Two nodes, the first heard one minute before midnight (UTC), the second one
  minute after it.\<close>

definition midnight_registry :: state where
  "midnight_registry = process_node_events init_state
     [example_payload (Some 1) ''N1'' 86340, example_payload (Some 2) ''N2'' 86460]"

text \<open>Thirteen nodes, all heard at 1000 seconds.\<close>

definition crowded_state :: state where
  "crowded_state = process_node_events init_state
     (map (\<lambda>i. example_payload (Some (int i + 1)) ''N'' 1000) [0..<13])"

text \<open>A sink that answers every document with a given status, and one that times out.\<close>

definition example_sink :: "int \<Rightarrow> sink" where
  "example_sink code = (\<lambda>data. Inr \<lparr>status_code = code, response_text = []\<rparr>)"

definition failing_sink :: sink where
  "failing_sink = (\<lambda>data. Inl ''timeout'')"

text \<open>An iteration of the main loop: whether \<open>connect()\<close> would succeed, and whether a
  termination signal arrives; an empty node table and a sink that times out.\<close>

definition example_env :: "bool \<Rightarrow> bool \<Rightarrow> cycle_env" where
  "example_env ok signalled =
     \<lparr>e_connect_ok = ok, e_signalled = signalled, e_transport_nodes = [],
      e_sink = failing_sink, e_now = 0\<rparr>"

text \<open>Five iterations in which \<open>connect()\<close> fails; a signal arrives during the last.\<close>

definition example_failures :: "cycle_env list" where
  "example_failures = [example_env False False, example_env False False,
     example_env False False, example_env False False, example_env False True]"

text \<open>A channel object with settings, a name and a key; the state after a successful
  \<open>connect()\<close>.\<close>

definition example_channel :: "string \<Rightarrow> channel_obj" where
  "example_channel name =
     \<lparr>ch_settings = Some \<lparr>st_name = Some name, st_psk = Some [1]\<rparr>,
      ch_role = Some ''secondary''\<rparr>"

definition connected_state :: state where
  "connected_state = snd (connect True init_state)"

text \<open>A node payload with every key present, and one with the identifier alone.\<close>

definition full_payload :: "int \<Rightarrow> node_payload" where
  "full_payload num =
     \<lparr>p_num = Some num,
      p_user = Some \<lparr>u_longName = Some ''Base station'', u_shortName = Some ''BASE''\<rparr>,
      p_lastHeard = Some 200, p_snr = Some (21 / 4),
      p_position = Some [(''latitude'', ''48.1'')],
      p_deviceMetrics = Some [(''batteryLevel'', ''90'')]\<rparr>"

definition bare_payload :: "int \<Rightarrow> node_payload" where
  "bare_payload num =
     \<lparr>p_num = Some num, p_user = None, p_lastHeard = None, p_snr = None,
      p_position = None, p_deviceMetrics = None\<rparr>"

text \<open>Two local zones: UTC, and central Europe in 2024 (UTC+2 from 2024-03-31 01:00 UTC
  to 2024-10-27 01:00 UTC, UTC+1 otherwise).\<close>

definition utc :: zone where
  "utc = (\<lambda>u. 0)"


text \<open>A registry with one node, heard at the given epoch second.\<close>

definition single_registry :: "int \<Rightarrow> state" where
  "single_registry heard =
     process_node_events init_state [example_payload (Some 1) ''N1'' heard]"

section \<open>Properties\<close>

lemma dict_get_simps [simp]: "dict_get None d = d" "dict_get (Some x) d = x"
  by (simp_all add: dict_get_def)

lemma and_then_simps [simp]: "and_then (Inl e) f = Inl e" "and_then (Inr x) f = f x"
  by (simp_all add: and_then_def)

subsection \<open>\<open>datetime\<close>\<close>

lemma fromtimestamp_cases:
  "fromtimestamp z t
     = (if representable z t then Inr (t + of_int (z \<lfloor>t\<rfloor>)) else Inl OutOfRange)"
  by (simp add: representable_def fromtimestamp_def local_seconds_def Let_def)

lemma representable_iff:
  "representable z t \<longleftrightarrow>
     DATETIME_MIN \<le> \<lfloor>t\<rfloor> + z \<lfloor>t\<rfloor> \<and> \<lfloor>t\<rfloor> + z \<lfloor>t\<rfloor> \<le> DATETIME_MAX
     \<and> DATETIME_MIN \<le> \<lfloor>t\<rfloor> - 86400 + z (\<lfloor>t\<rfloor> - 86400)
     \<and> \<lfloor>t\<rfloor> - 86400 + z (\<lfloor>t\<rfloor> - 86400) \<le> DATETIME_MAX"
  by (auto simp: representable_def fromtimestamp_def local_seconds_def Let_def)

subsection \<open>Node Registry\<close>

lemma find_Some_ex: "(\<exists>z. find P xs = Some z) \<longleftrightarrow> (\<exists>x \<in> set xs. P x)"
  by (induction xs) auto

lemma on_node_updated_map_of:
  "map_of (nodes (on_node_updated s p)) k =
     (if p_num p = Some k \<and> k \<noteq> 0 then Some (parse_node k p) else map_of (nodes s) k)"
  by (cases "p_num p") (auto simp: on_node_updated_def dict_get_def Let_def update_conv')

lemma on_node_updated_distinct:
  "distinct (map fst (nodes s)) \<Longrightarrow> distinct (map fst (nodes (on_node_updated s p)))"
  by (simp add: on_node_updated_def Let_def distinct_update)

lemma process_node_events_snoc:
  "process_node_events s (ps @ [p]) = on_node_updated (process_node_events s ps) p"
  by (simp add: process_node_events_def)

lemma process_node_events_distinct:
  "distinct (map fst (nodes s)) \<Longrightarrow> distinct (map fst (nodes (process_node_events s ps)))"
proof (induction ps rule: rev_induct)
  case Nil
  then show ?case by (simp add: process_node_events_def)
next
  case (snoc p ps)
  then show ?case by (simp add: process_node_events_snoc on_node_updated_distinct)
qed

text \<open>From any registry: the last event that names \<open>k\<close> decides the entry of \<open>k\<close>.\<close>

lemma process_node_events_map_of:
  "map_of (nodes (process_node_events s ps)) k =
     (case find (\<lambda>p. p_num p = Some k) (rev ps) of
        None \<Rightarrow> map_of (nodes s) k
      | Some p \<Rightarrow> if k \<noteq> 0 then Some (parse_node k p) else map_of (nodes s) k)"
proof (induction ps rule: rev_induct)
  case Nil
  show ?case by (simp add: process_node_events_def)
next
  case (snoc p ps)
  show ?case
    by (simp add: process_node_events_snoc on_node_updated_map_of snoc.IH split: option.splits)
qed

text \<open>The fields of the entry written for a payload, one by one.\<close>

lemma parse_node_fields:
  "parse_node k p =
     \<lparr>n_id = k,
      n_longName = (case p_user p of
                      None \<Rightarrow> ''Unknown''
                    | Some u \<Rightarrow> (case u_longName u of None \<Rightarrow> ''Unknown'' | Some a \<Rightarrow> a)),
      n_shortName = (case p_user p of
                       None \<Rightarrow> ''UNK''
                     | Some u \<Rightarrow> (case u_shortName u of None \<Rightarrow> ''UNK'' | Some a \<Rightarrow> a)),
      n_lastHeard = (case p_lastHeard p of None \<Rightarrow> 0 | Some t \<Rightarrow> t),
      n_snr = (case p_snr p of None \<Rightarrow> 0 | Some x \<Rightarrow> x),
      n_position = (case p_position p of None \<Rightarrow> [] | Some d \<Rightarrow> d),
      n_telemetry = (case p_deviceMetrics p of None \<Rightarrow> [] | Some d \<Rightarrow> d)\<rparr>"
  by (simp add: parse_node_def Let_def split: option.splits)

text \<open>
  C1. After any sequence of node-updated events, processed from the empty registry of
  \<open>__init__\<close>, the Node Registry has one entry for each key (its keys are distinct), its
  keys are exactly the non-zero identifiers that some event carried, and the entry of an
  identifier \<open>k\<close> holds the data of the last event that carried \<open>k\<close>, field by field:
  the identifier \<open>k\<close>; the long and the short name of the payload's \<open>user\<close>
  (\<open>Unknown\<close> and \<open>UNK\<close> when the payload has no \<open>user\<close> or the \<open>user\<close> lacks the
  name); the payload's \<open>lastHeard\<close> and \<open>snr\<close> (0 when missing); its \<open>position\<close>
  and its \<open>deviceMetrics\<close> (an empty dictionary when missing). Nothing of an earlier
  event for \<open>k\<close> remains. An event whose identifier is missing or zero leaves the whole
  state unchanged.
\<close>

theorem node_registry_latest:
  "distinct (map fst (nodes (process_node_events init_state ps)))
   \<and> fst ` set (nodes (process_node_events init_state ps))
       = {k. k \<noteq> 0 \<and> (\<exists>p \<in> set ps. p_num p = Some k)}
   \<and> map_of (nodes (process_node_events init_state ps)) k
       = (if k = 0 then None
          else map_option
            (\<lambda>p. \<lparr>n_id = k,
                  n_longName =
                    (case p_user p of
                       None \<Rightarrow> ''Unknown''
                     | Some u \<Rightarrow> (case u_longName u of None \<Rightarrow> ''Unknown'' | Some a \<Rightarrow> a)),
                  n_shortName =
                    (case p_user p of
                       None \<Rightarrow> ''UNK''
                     | Some u \<Rightarrow> (case u_shortName u of None \<Rightarrow> ''UNK'' | Some a \<Rightarrow> a)),
                  n_lastHeard = (case p_lastHeard p of None \<Rightarrow> 0 | Some t \<Rightarrow> t),
                  n_snr = (case p_snr p of None \<Rightarrow> 0 | Some x \<Rightarrow> x),
                  n_position = (case p_position p of None \<Rightarrow> [] | Some d \<Rightarrow> d),
                  n_telemetry = (case p_deviceMetrics p of None \<Rightarrow> [] | Some d \<Rightarrow> d)\<rparr>)
            (find (\<lambda>p. p_num p = Some k) (rev ps)))
   \<and> (p_num p = None \<or> p_num p = Some 0 \<longrightarrow> on_node_updated s p = s)"
proof -
  let ?s = "process_node_events init_state ps"
  have d: "distinct (map fst (nodes ?s))"
    by (rule process_node_events_distinct) (simp add: init_state_def)
  have m0: "\<And>k. map_of (nodes ?s) k
       = (if k = 0 then None
          else map_option (parse_node k) (find (\<lambda>p. p_num p = Some k) (rev ps)))"
    by (simp add: process_node_events_map_of init_state_def split: option.splits)
  have "fst ` set (nodes ?s) = dom (map_of (nodes ?s))"
    by (simp add: dom_map_of_conv_image_fst)
  also have "\<dots> = {k. k \<noteq> 0 \<and> (\<exists>p \<in> set ps. p_num p = Some k)}"
    using find_Some_ex [of "\<lambda>p. p_num p = Some k" "rev ps" for k]
    by (auto simp: dom_def m0 split: if_splits)
  finally have k: "fst ` set (nodes ?s) = {k. k \<noteq> 0 \<and> (\<exists>p \<in> set ps. p_num p = Some k)}" .
  have f: "parse_node k = (\<lambda>p. \<lparr>n_id = k,
                  n_longName =
                    (case p_user p of
                       None \<Rightarrow> ''Unknown''
                     | Some u \<Rightarrow> (case u_longName u of None \<Rightarrow> ''Unknown'' | Some a \<Rightarrow> a)),
                  n_shortName =
                    (case p_user p of
                       None \<Rightarrow> ''UNK''
                     | Some u \<Rightarrow> (case u_shortName u of None \<Rightarrow> ''UNK'' | Some a \<Rightarrow> a)),
                  n_lastHeard = (case p_lastHeard p of None \<Rightarrow> 0 | Some t \<Rightarrow> t),
                  n_snr = (case p_snr p of None \<Rightarrow> 0 | Some x \<Rightarrow> x),
                  n_position = (case p_position p of None \<Rightarrow> [] | Some d \<Rightarrow> d),
                  n_telemetry = (case p_deviceMetrics p of None \<Rightarrow> [] | Some d \<Rightarrow> d)\<rparr>)"
    by (rule ext) (rule parse_node_fields)
  have m: "map_of (nodes ?s) k
       = (if k = 0 then None
          else map_option
            (\<lambda>p. \<lparr>n_id = k,
                  n_longName =
                    (case p_user p of
                       None \<Rightarrow> ''Unknown''
                     | Some u \<Rightarrow> (case u_longName u of None \<Rightarrow> ''Unknown'' | Some a \<Rightarrow> a)),
                  n_shortName =
                    (case p_user p of
                       None \<Rightarrow> ''UNK''
                     | Some u \<Rightarrow> (case u_shortName u of None \<Rightarrow> ''UNK'' | Some a \<Rightarrow> a)),
                  n_lastHeard = (case p_lastHeard p of None \<Rightarrow> 0 | Some t \<Rightarrow> t),
                  n_snr = (case p_snr p of None \<Rightarrow> 0 | Some x \<Rightarrow> x),
                  n_position = (case p_position p of None \<Rightarrow> [] | Some d \<Rightarrow> d),
                  n_telemetry = (case p_deviceMetrics p of None \<Rightarrow> [] | Some d \<Rightarrow> d)\<rparr>)
            (find (\<lambda>p. p_num p = Some k) (rev ps)))"
    unfolding f [symmetric] by (rule m0)
  have u: "p_num p = None \<or> p_num p = Some 0 \<longrightarrow> on_node_updated s p = s"
    by (auto simp: on_node_updated_def dict_get_def)
  from d k m u show ?thesis by blast
qed

theorem node_registry_latest_witness:
  "p_num (example_payload None ''N0'' 5) = None
   \<and> map_of (nodes (process_node_events init_state
      [example_payload (Some 7) ''A'' 100, bare_payload 8, example_payload (Some 0) ''Z'' 150,
       full_payload 7])) 7
     = Some \<lparr>n_id = 7, n_longName = ''Base station'', n_shortName = ''BASE'',
             n_lastHeard = 200, n_snr = 21 / 4, n_position = [(''latitude'', ''48.1'')],
             n_telemetry = [(''batteryLevel'', ''90'')]\<rparr>
   \<and> map_of (nodes (process_node_events init_state
      [example_payload (Some 7) ''A'' 100, bare_payload 8, example_payload (Some 0) ''Z'' 150,
       full_payload 7])) 8
     = Some \<lparr>n_id = 8, n_longName = ''Unknown'', n_shortName = ''UNK'',
             n_lastHeard = 0, n_snr = 0, n_position = [], n_telemetry = []\<rparr>
   \<and> on_node_updated init_state (example_payload None ''N0'' 5) = init_state"
  using node_registry_latest [of "[example_payload (Some 7) ''A'' 100, bare_payload 8,
       example_payload (Some 0) ''Z'' 150, full_payload 7]" 7
       "example_payload None ''N0'' 5" init_state]
     node_registry_latest [of "[example_payload (Some 7) ''A'' 100, bare_payload 8,
       example_payload (Some 0) ''Z'' 150, full_payload 7]" 8
       "example_payload None ''N0'' 5" init_state]
  by (simp add: example_payload_def full_payload_def bare_payload_def)

subsection \<open>Message History\<close>

lemma strip_Nil_iff: "strip t = [] \<longleftrightarrow> (\<forall>c \<in> set t. py_isspace c)"
proof
  assume "strip t = []"
  then have a: "dropWhile py_isspace (rev (dropWhile py_isspace t)) = []"
    by (simp add: strip_def)
  have "\<forall>c \<in> set (dropWhile py_isspace t). py_isspace c"
    using a by (simp add: dropWhile_eq_Nil_conv)
  then have "dropWhile py_isspace t = []"
    by (metis hd_dropWhile list.set_sel(1))
  then show "\<forall>c \<in> set t. py_isspace c"
    by (simp add: dropWhile_eq_Nil_conv)
next
  assume "\<forall>c \<in> set t. py_isspace c"
  then show "strip t = []" by (auto simp: strip_def dest: set_dropWhileD)
qed

lemma nonblank_iff: "nonblank t \<longleftrightarrow> (\<exists>c \<in> set t. \<not> py_isspace c)"
  by (auto simp: nonblank_def strip_Nil_iff)

text \<open>
  C3. A packet from which the \<open>if\<close>/\<open>elif\<close> chain extracts no text, or a text that is
  empty or consists of white space only, leaves the Message History and the Message
  Statistics unchanged (indeed the whole state).
\<close>

theorem no_text_no_change:
  assumes "packet_text packet = None
           \<or> (\<exists>t. packet_text packet = Some t \<and> (\<forall>c \<in> set t. py_isspace c))"
  shows "recent_messages (on_receive z now s packet) = recent_messages s
    \<and> message_stats (on_receive z now s packet) = message_stats s
    \<and> on_receive z now s packet = s"
  using assms by (auto simp: on_receive_def packet_text_def Let_def nonblank_iff)

theorem no_text_no_change_witness:
  "packet_text (example_packet '' '' None) = Some '' '' \<and>
   on_receive utc 0 init_state (example_packet '' '' None) = init_state"
  using no_text_no_change [of "example_packet '' '' None" utc 0 init_state]
  by (simp add: packet_text_def example_packet_def py_isspace_def)

lemma lastn_lastn_append: "lastn n (lastn n xs @ ys) = lastn n (xs @ ys)"
proof (cases "length xs \<le> n")
  case True
  then show ?thesis by (simp add: lastn_def)
next
  case False
  then have "length xs + length ys - (length xs - n + n) + (length xs - n)
             = length xs + length ys - n"
    by arith
  then show ?thesis using False by (simp add: lastn_def)
qed

lemma length_lastn: "length (lastn n xs) \<le> n"
  by (simp add: lastn_def)

lemma deque_append_lastn:
  "length d \<le> MAX_RECENT_MESSAGES \<Longrightarrow> deque_append d x = lastn MAX_RECENT_MESSAGES (d @ [x])"
proof (cases "length d < MAX_RECENT_MESSAGES")
  case True
  then show ?thesis by (simp add: deque_append_def lastn_def Let_def)
next
  case False
  assume "length d \<le> MAX_RECENT_MESSAGES"
  with False have l: "length d = MAX_RECENT_MESSAGES" by simp
  then have "Suc (length d) - MAX_RECENT_MESSAGES = Suc 0" by simp
  then show ?thesis using l
    by (cases d) (simp_all add: deque_append_def lastn_def Let_def MAX_RECENT_MESSAGES_def)
qed

lemma on_receive_nodes: "nodes (on_receive z now s p) = nodes s"
  by (simp add: on_receive_def Let_def split: option.splits sum.splits)

text \<open>\<open>on_receive\<close> leaves the Node Registry alone, so the message built for a later
  packet of the sequence is the one built in the state the sequence starts from.\<close>

lemma appended_nodes: "nodes s' = nodes s \<Longrightarrow> appended z s' evs = appended z s evs"
proof -
  assume "nodes s' = nodes s"
  then have "\<And>now p t. message_data z now s' p t = message_data z now s p t"
    by (simp add: message_data_def)
  then show ?thesis by (simp add: appended_def cong: if_cong option.case_cong)
qed

lemma on_receive_recent:
  "length (recent_messages s) \<le> MAX_RECENT_MESSAGES \<Longrightarrow>
   recent_messages (on_receive z now s p)
     = lastn MAX_RECENT_MESSAGES (recent_messages s @ appended z s [(now, p)])"
  by (auto simp: on_receive_def appended_def Let_def deque_append_lastn lastn_def
      split: option.splits sum.splits)

lemma process_packets_Cons:
  "process_packets z s ((now, p) # evs) = process_packets z (on_receive z now s p) evs"
  by (simp add: process_packets_def)

lemma appended_Cons: "appended z s (e # evs) = appended z s [e] @ appended z s evs"
  by (simp add: appended_def)

lemma process_packets_recent:
  "length (recent_messages s) \<le> MAX_RECENT_MESSAGES \<Longrightarrow>
   recent_messages (process_packets z s evs)
     = lastn MAX_RECENT_MESSAGES (recent_messages s @ appended z s evs)"
proof (induction evs arbitrary: s)
  case Nil
  then show ?case by (simp add: process_packets_def appended_def lastn_def)
next
  case (Cons e evs)
  obtain now p where e: "e = (now, p)" by (cases e)
  let ?s' = "on_receive z now s p"
  have r: "recent_messages ?s' = lastn MAX_RECENT_MESSAGES (recent_messages s @ appended z s [e])"
    using Cons.prems e by (simp add: on_receive_recent)
  then have l: "length (recent_messages ?s') \<le> MAX_RECENT_MESSAGES"
    by (simp add: length_lastn)
  have "recent_messages (process_packets z s (e # evs))
        = lastn MAX_RECENT_MESSAGES (recent_messages ?s' @ appended z ?s' evs)"
    using Cons.IH [OF l] e by (simp add: process_packets_Cons)
  also have "\<dots> = lastn MAX_RECENT_MESSAGES
        (lastn MAX_RECENT_MESSAGES (recent_messages s @ appended z s [e]) @ appended z s evs)"
    by (simp add: r appended_nodes [OF on_receive_nodes])
  also have "\<dots> = lastn MAX_RECENT_MESSAGES (recent_messages s @ appended z s (e # evs))"
    by (simp add: lastn_lastn_append appended_Cons [of z s e evs])
  finally show ?case .
qed

text \<open>
  C2. A history of at most 10 messages (the invariant of the deque, which holds of the
  empty history of \<open>__init__\<close>) still has at most 10 after any sequence of
  packet-received events, and it then holds the last 10 of: the messages it held before,
  followed by the messages the events appended, in order of arrival. In particular, when
  the events append \<open>N > 10\<close> messages to an empty history, exactly the last 10 of them
  remain, the oldest \<open>N - 10\<close> having been dropped.
\<close>

theorem message_history_fifo:
  assumes "length (recent_messages s) \<le> MAX_RECENT_MESSAGES"
  shows "length (recent_messages (process_packets z s evs)) \<le> MAX_RECENT_MESSAGES
    \<and> recent_messages (process_packets z s evs)
        = lastn MAX_RECENT_MESSAGES (recent_messages s @ appended z s evs)
    \<and> (recent_messages s = [] \<and> MAX_RECENT_MESSAGES < length (appended z s evs)
        \<longrightarrow> length (recent_messages (process_packets z s evs)) = MAX_RECENT_MESSAGES
          \<and> recent_messages (process_packets z s evs)
              = drop (length (appended z s evs) - MAX_RECENT_MESSAGES) (appended z s evs))"
  using assms by (simp add: process_packets_recent length_lastn) (simp add: lastn_def)

theorem message_history_fifo_witness:
  "length (recent_messages init_state) \<le> MAX_RECENT_MESSAGES
   \<and> map m_text (recent_messages (process_packets utc init_state (example_events 12)))
       = [''m2'', ''m3'', ''m4'', ''m5'', ''m6'', ''m7'', ''m8'', ''m9'', ''m10'', ''m11'']"
  using message_history_fifo [of init_state utc "example_events 12"]
  by (simp add: init_state_def MAX_RECENT_MESSAGES_def example_events_def example_packet_def
      upt_rec [of 0] upt_rec [of "Suc _"] upt_rec [of "numeral _"]
      appended_def lastn_def nonblank_def strip_def py_isspace_def str_nat.simps
      digit_char_def message_data_def Let_def rx_time_of_def fromtimestamp_def
      local_seconds_def utc_def DATETIME_MIN_def DATETIME_MAX_def)

subsection \<open>Message Statistics\<close>

lemma stats_get_incr:
  "stats_get (stats_incr m k) k' = (if k' = k then stats_get m k + 1 else stats_get m k')"
  by (simp add: stats_get_def stats_incr_def update_conv')

lemma stats_incr_distinct: "distinct (map fst m) \<Longrightarrow> distinct (map fst (stats_incr m k))"
  by (simp add: stats_incr_def distinct_update)

lemma filter_update_other:
  "\<not> P k \<Longrightarrow> filter (\<lambda>kv. P (fst kv)) (AList.update k v m) = filter (\<lambda>kv. P (fst kv)) m"
  by (induction m) auto

lemma sum_update:
  "distinct (map fst m) \<Longrightarrow> P k \<Longrightarrow>
   sum_list (map snd (filter (\<lambda>kv. P (fst kv)) (AList.update k v m)))
     = sum_list (map snd (filter (\<lambda>kv. P (fst kv)) m)) - dict_get (map_of m k) (0::int) + v"
proof (induction m)
  case Nil
  then show ?case by simp
next
  case (Cons p m)
  show ?case
  proof (cases "fst p = k")
    case True
    then show ?thesis using Cons.prems by (cases p) simp
  next
    case False
    then show ?thesis using Cons by (cases p) simp
  qed
qed

lemma sender_sum_incr:
  "distinct (map fst m) \<Longrightarrow>
   sender_sum (stats_incr m k) = (if k = ''total'' then sender_sum m else sender_sum m + 1)"
  using sum_update [of m "\<lambda>k. k \<noteq> ''total''" k "stats_get m k + 1"]
        filter_update_other [of "\<lambda>k. k \<noteq> ''total''" k "stats_get m k + 1" m]
  by (simp add: sender_sum_def stats_incr_def stats_get_def)

lemma on_receive_stats:
  "message_stats (on_receive z now s p)
     = (if accepted z now p
        then stats_incr (stats_incr (message_stats s) (from_id_str p)) ''total''
        else message_stats s)"
  by (simp add: on_receive_def accepted_def packet_text_def message_data_def Let_def
      and_then_def split: option.splits sum.splits)

lemma on_receive_stats_ok:
  assumes "stats_ok (message_stats s)" "from_id_str p \<noteq> ''total''"
  shows "stats_ok (message_stats (on_receive z now s p))"
  using assms
  by (simp add: on_receive_stats stats_ok_def stats_incr_distinct sender_sum_incr stats_get_incr)

lemma on_receive_stats_mono:
  "stats_get (message_stats s) k \<le> stats_get (message_stats (on_receive z now s p)) k"
  by (simp add: on_receive_stats stats_get_incr)

lemma process_packets_stats_ok:
  "stats_ok (message_stats s) \<Longrightarrow> \<forall>e \<in> set evs. from_id_str (snd e) \<noteq> ''total'' \<Longrightarrow>
   stats_ok (message_stats (process_packets z s evs))"
proof (induction evs arbitrary: s)
  case Nil
  then show ?case by (simp add: process_packets_def)
next
  case (Cons e evs)
  obtain now p where e: "e = (now, p)" by (cases e)
  have "stats_ok (message_stats (on_receive z now s p))"
    using Cons.prems e by (simp add: on_receive_stats_ok)
  then show ?case using Cons.IH Cons.prems(2) e by (simp add: process_packets_Cons)
qed

lemma process_packets_stats_mono:
  "stats_get (message_stats s) k \<le> stats_get (message_stats (process_packets z s evs)) k"
proof (induction evs arbitrary: s)
  case Nil
  then show ?case by (simp add: process_packets_def)
next
  case (Cons e evs)
  obtain now p where e: "e = (now, p)" by (cases e)
  have "stats_get (message_stats s) k \<le> stats_get (message_stats (on_receive z now s p)) k"
    by (rule on_receive_stats_mono)
  also have "\<dots> \<le> stats_get (message_stats (process_packets z (on_receive z now s p) evs)) k"
    by (rule Cons.IH)
  finally show ?case using e by (simp add: process_packets_Cons)
qed

text \<open>
  C10, as stated, fails: the per-sender counters and the total share one dictionary,
  so a sender whose identity string is \<open>total\<close> is counted on the key \<open>'total'\<close>.
  After one such message the total is 2 and the per-sender counters sum to 0.
\<close>

theorem stats_total_counterexample:
  "stats_get (message_stats (process_packets utc init_state
      [(0, example_packet ''hi'' (Some ''total''))])) ''total'' = 2
   \<and> sender_sum (message_stats (process_packets utc init_state
      [(0, example_packet ''hi'' (Some ''total''))])) = 0
   \<and> stats_get (message_stats (process_packets utc init_state
      [(0, example_packet ''hi'' (Some ''total''))])) ''total''
     \<noteq> sender_sum (message_stats (process_packets utc init_state
      [(0, example_packet ''hi'' (Some ''total''))]))"
  by (simp add: process_packets_def on_receive_def example_packet_def init_state_def Let_def
      nonblank_def strip_def py_isspace_def stats_incr_def stats_get_def
      sender_sum_def from_id_str_def message_data_def rx_time_of_def fromtimestamp_def
      local_seconds_def utc_def DATETIME_MIN_def DATETIME_MAX_def)

text \<open>
  C10, amended. When the total equals the sum of the per-sender counters before (as it
  does initially) and no packet of the sequence has the sender identity string
  \<open>total\<close>, the total equals the sum of the per-sender counters afterwards. No counter
  ever decreases. A retained packet whose sender identity is not \<open>total\<close> adds one to
  the counter of its sender and one to the total, and leaves every other counter as it
  was; a packet that is not retained leaves every counter as it was.
\<close>

theorem stats_total_is_sender_sum:
  "(stats_ok (message_stats s) \<and> (\<forall>e \<in> set evs. from_id_str (snd e) \<noteq> ''total'')
      \<longrightarrow> stats_get (message_stats (process_packets z s evs)) ''total''
            = sender_sum (message_stats (process_packets z s evs)))
   \<and> stats_get (message_stats s) k \<le> stats_get (message_stats (process_packets z s evs)) k
   \<and> (accepted z now p \<and> from_id_str p \<noteq> ''total''
      \<longrightarrow> stats_get (message_stats (on_receive z now s p)) k
            = stats_get (message_stats s) k
              + (if k = from_id_str p \<or> k = ''total'' then 1 else 0))
   \<and> (\<not> accepted z now p \<longrightarrow> message_stats (on_receive z now s p) = message_stats s)"
  using process_packets_stats_ok [of s evs z] process_packets_stats_mono [of s k z evs]
  by (auto simp: stats_ok_def on_receive_stats stats_get_incr)

theorem stats_total_is_sender_sum_witness:
  "stats_ok (message_stats init_state)
   \<and> accepted utc 0 (example_packet ''hi'' (Some ''!a''))
   \<and> stats_get (message_stats (process_packets utc init_state
        [(0, example_packet ''hi'' (Some ''!a'')), (0, example_packet ''yo'' (Some ''!b'')),
         (0, example_packet ''yo'' (Some ''!a''))])) ''total'' = 3
   \<and> sender_sum (message_stats (process_packets utc init_state
        [(0, example_packet ''hi'' (Some ''!a'')), (0, example_packet ''yo'' (Some ''!b'')),
         (0, example_packet ''yo'' (Some ''!a''))])) = 3"
  using stats_total_is_sender_sum [of init_state
      "[(0, example_packet ''hi'' (Some ''!a'')), (0, example_packet ''yo'' (Some ''!b'')),
        (0, example_packet ''yo'' (Some ''!a''))]" utc "''total''" 0
      "example_packet ''hi'' (Some ''!a'')"]
  by (simp add: process_packets_def on_receive_def example_packet_def init_state_def Let_def
      nonblank_def strip_def py_isspace_def stats_incr_def stats_get_def stats_ok_def
      sender_sum_def from_id_str_def accepted_def packet_text_def message_data_def
      rx_time_of_def fromtimestamp_def local_seconds_def utc_def DATETIME_MIN_def
      DATETIME_MAX_def)

subsection \<open>Online Classifier\<close>



lemma collect_online_cases:
  "collect_online z thr ns
     = (if \<forall>kn \<in> set ns. thr < of_int (n_lastHeard (snd kn))
             \<longrightarrow> representable z (of_int (n_lastHeard (snd kn)))
        then Inr (map (\<lambda>kn. display_of (of_int (n_lastHeard (snd kn) + z (n_lastHeard (snd kn))))
                         (fst kn) (snd kn))
                    (filter (\<lambda>kn. thr < of_int (n_lastHeard (snd kn))) ns))
        else Inl OutOfRange)"
proof (induction ns)
  case Nil
  show ?case by simp
next
  case (Cons kn ns)
  obtain k n where kn: "kn = (k, n)" by (cases kn)
  show ?case unfolding kn by (simp add: fromtimestamp_cases Cons.IH)
qed

lemma set_sort_reverse [simp]: "set (sort_reverse key xs) = set xs"
  by (simp add: sort_reverse_def)

lemma length_sort_reverse [simp]: "length (sort_reverse key xs) = length xs"
  by (simp add: sort_reverse_def)

lemma d_id_display_of [simp]: "d_id (display_of t k n) = k"
  by (simp add: display_of_def)

lemma get_online_nodes_steady:
  assumes "threshold_timestamp z now = Inr thr"
  shows "get_online_nodes z now s
     = (if \<forall>kn \<in> set (nodes s). thr < of_int (n_lastHeard (snd kn))
             \<longrightarrow> representable z (of_int (n_lastHeard (snd kn)))
        then Inr (sort_reverse d_lastHeard
               (map (\<lambda>kn. display_of (of_int (n_lastHeard (snd kn) + z (n_lastHeard (snd kn))))
                         (fst kn) (snd kn))
                    (filter (\<lambda>kn. thr < of_int (n_lastHeard (snd kn))) (nodes s))))
        else Inl OutOfRange)"
  by (simp add: get_online_nodes_def assms collect_online_cases)




text \<open>What the sort of \<open>get_online_nodes\<close> does give: the formatted times \<open>HH:MM\<close> of
  the list are in descending order.\<close>

lemma online_sorted_by_formatted_time:
  "get_online_nodes z now s = Inr l \<Longrightarrow> sorted (rev (map d_lastHeard l))"
  by (auto simp: get_online_nodes_def and_then_def sort_reverse_def rev_map split: sum.splits)

text \<open>
  C5 fails on the code. The sort key of \<open>get_online_nodes\<close> is the field
  \<open>lastHeard\<close> of the display record, which holds the formatted local time
  \<open>HH:MM\<close>, not the timestamp. With the clock at 00:01:40 of the second day (UTC), a
  node heard at 23:59 of the first day (86340) is listed before a node heard at 00:01 of
  the second day (86460), although the second was heard more recently.
\<close>

theorem online_order_midnight:
  "map_sum id (map d_id) (get_online_nodes utc 86500 midnight_registry) = Inr [1, 2]
   \<and> map_option n_lastHeard (map_of (nodes midnight_registry) 1) = Some 86340
   \<and> map_option n_lastHeard (map_of (nodes midnight_registry) 2) = Some 86460
   \<and> map_sum id (map d_lastHeard) (get_online_nodes utc 86500 midnight_registry)
       = Inr [''23:59'', ''00:01'']
   \<and> get_online_nodes utc 86500 midnight_registry
       = Inr [\<lparr>d_name = ''N1'', d_longName = ''Unknown'', d_lastHeard = ''23:59'',
               d_snr = 0, d_id = 1\<rparr>,
              \<lparr>d_name = ''N2'', d_longName = ''Unknown'', d_lastHeard = ''00:01'',
               d_snr = 0, d_id = 2\<rparr>]"
  by (simp add: midnight_registry_def process_node_events_def on_node_updated_def init_state_def
      example_payload_def parse_node_def Let_def get_online_nodes_def threshold_timestamp_def
      fromtimestamp_def local_seconds_def minus_timedelta_def timestamp_def naive_mktime_def
      utc_def DATETIME_MIN_def DATETIME_MAX_def ONLINE_THRESHOLD_MINUTES_def
      sort_reverse_def display_of_def strftime_HM_def fmt2_def digit_char_def round1_def)

subsection \<open>Snapshot Builder\<close>

lemma threshold_utc_1000: "threshold_timestamp utc 1000 = Inr (- 800)"
  by (simp add: threshold_timestamp_def fromtimestamp_def local_seconds_def
      minus_timedelta_def timestamp_def naive_mktime_def utc_def DATETIME_MIN_def
      DATETIME_MAX_def ONLINE_THRESHOLD_MINUTES_def Let_def)

lemma crowded_online:
  "\<exists>l. get_online_nodes utc 1000 crowded_state = Inr l \<and> length l = 13"
  by (subst get_online_nodes_steady [OF threshold_utc_1000])
     (simp add: representable_iff utc_def
      DATETIME_MIN_def DATETIME_MAX_def crowded_state_def process_node_events_def
      on_node_updated_def init_state_def example_payload_def parse_node_def Let_def
      upt_rec [of 0] upt_rec [of "Suc _"] upt_rec [of "numeral _"])

lemma crowded_nodes: "length (nodes crowded_state) = 13"
  by (simp add: crowded_state_def process_node_events_def
      on_node_updated_def init_state_def example_payload_def parse_node_def Let_def
      upt_rec [of 0] upt_rec [of "Suc _"] upt_rec [of "numeral _"])

lemma sn_recent: "take 10 (ms_recent (get_message_summary s)) = take 10 (rev (recent_messages s))"
  by (simp add: get_message_summary_def Let_def)

text \<open>The snapshot is built whenever the classifier returns a list.\<close>

lemma prepare_display_data_cases:
  "prepare_display_data z now s =
     (case get_online_nodes z now s of
        Inl e \<Rightarrow> Inl e
      | Inr l \<Rightarrow>
          Inr \<lparr>sn_network_stats =
                 \<lparr>ns_total_nodes = length (nodes s), ns_online_nodes = length l,
                  ns_channels = length (channels s),
                  ns_last_update = strftime_HMS (now + of_int (z \<lfloor>now\<rfloor>))\<rparr>,
               sn_online_nodes = take 12 l,
               sn_recent_messages = take 10 (rev (recent_messages s)),
               sn_message_stats_total = ms_total (get_message_summary s),
               sn_channels = take 6 (map snd (channels s)),
               sn_status = (if interface s then ''connected'' else ''disconnected''),
               sn_timestamp = now + of_int (z \<lfloor>now\<rfloor>),
               sn_platform = ''Raspberry Pi'',
               sn_meshtastic_device = ''Heltec v3''\<rparr>)"
proof (cases "get_online_nodes z now s")
  case (Inl e)
  then show ?thesis by (simp add: prepare_display_data_def)
next
  case (Inr l)
  then have "representable z now"
    by (auto simp: get_online_nodes_def threshold_timestamp_def fromtimestamp_cases
        and_then_def split: sum.splits if_splits)
  then show ?thesis using Inr
    by (simp add: prepare_display_data_def get_network_stats_def fromtimestamp_cases Let_def
        sn_recent)
qed

text \<open>
  C9. In every snapshot that is built, \<open>online_nodes\<close> is the first 12 entries of the
  classifier's list, \<open>recent_messages\<close> the first 10 of the history read newest first,
  and \<open>channels\<close> the first 6 values of the Channel Registry;
  \<open>network_stats.total_nodes\<close> is the size of the Node Registry and
  \<open>network_stats.online_nodes\<close> the length of the classifier's whole list, which
  exceeds 12 in some snapshot. A snapshot is built whenever the classifier returns a
  list.
\<close>

theorem snapshot_caps:
  "(\<forall>d. prepare_display_data z now s = Inr d \<longrightarrow>
      (\<exists>l. get_online_nodes z now s = Inr l
         \<and> sn_online_nodes d = take 12 l
         \<and> ns_online_nodes (sn_network_stats d) = length l)
      \<and> length (sn_online_nodes d) \<le> 12
      \<and> length (sn_recent_messages d) \<le> 10
      \<and> sn_recent_messages d = take 10 (rev (recent_messages s))
      \<and> length (sn_channels d) \<le> 6
      \<and> sn_channels d = take 6 (map snd (channels s))
      \<and> ns_total_nodes (sn_network_stats d) = length (nodes s))
   \<and> (\<forall>l. get_online_nodes z now s = Inr l
        \<longrightarrow> (\<exists>d. prepare_display_data z now s = Inr d))
   \<and> (\<exists>s' now' z' d'. prepare_display_data z' now' s' = Inr d'
        \<and> 12 < ns_online_nodes (sn_network_stats d'))"
proof -
  obtain l where "get_online_nodes utc 1000 crowded_state = Inr l" "length l = 13"
    using crowded_online by blast
  then have e: "\<exists>s' now' z' d'. prepare_display_data z' now' s' = Inr d'
        \<and> 12 < ns_online_nodes (sn_network_stats d')"
    by (intro exI [of _ crowded_state] exI [of _ 1000] exI [of _ utc])
       (simp add: prepare_display_data_cases)
  show ?thesis using e
    by (auto simp: prepare_display_data_cases split: sum.splits)
qed

theorem snapshot_caps_witness:
  "map_sum id (\<lambda>d. (ns_online_nodes (sn_network_stats d), length (sn_online_nodes d),
                     ns_total_nodes (sn_network_stats d)))
     (prepare_display_data utc 1000 crowded_state) = Inr (13, 12, 13)"
  using snapshot_caps [of utc 1000 crowded_state] crowded_online
  by (auto simp: prepare_display_data_cases crowded_nodes)

subsection \<open>Sync Client\<close>

text \<open>
  C6. \<open>send_to_byos\<close> is a total function into the booleans: an exception of the
  \<open>try\<close> block, be it raised while the snapshot is built or by the POST (network error,
  timeout), is turned into \<open>False\<close> by the handler. It returns \<open>True\<close> exactly when the
  snapshot is built and the POST of it returns a response whose status is 200 or 201.
\<close>

theorem publish_returns_bool:
  "send_to_byos z now s post
     \<longleftrightarrow> (\<exists>d r. prepare_display_data z now s = Inr d \<and> post d = Inr r
              \<and> (status_code r = 200 \<or> status_code r = 201))"
  by (auto simp: send_to_byos_def send_to_byos_try_def and_then_def split: sum.splits)

lemma online_empty_registry: "get_online_nodes utc 0 init_state = Inr []"
  by (simp add: get_online_nodes_def threshold_timestamp_def fromtimestamp_def
      local_seconds_def minus_timedelta_def timestamp_def naive_mktime_def utc_def
      DATETIME_MIN_def DATETIME_MAX_def ONLINE_THRESHOLD_MINUTES_def Let_def init_state_def
      sort_reverse_def)

lemma online_far_future:
  "get_online_nodes utc 0 (single_registry 253402300800) = Inl OutOfRange"
  by (simp add: get_online_nodes_def threshold_timestamp_def fromtimestamp_def
      local_seconds_def minus_timedelta_def timestamp_def naive_mktime_def utc_def
      DATETIME_MIN_def DATETIME_MAX_def ONLINE_THRESHOLD_MINUTES_def Let_def init_state_def
      single_registry_def process_node_events_def on_node_updated_def example_payload_def
      parse_node_def)

theorem publish_returns_bool_witness:
  "send_to_byos utc 0 init_state (example_sink 200)
   \<and> send_to_byos utc 0 init_state (example_sink 201)
   \<and> \<not> send_to_byos utc 0 init_state (example_sink 500)
   \<and> \<not> send_to_byos utc 0 init_state failing_sink
   \<and> \<not> send_to_byos utc 0 (single_registry 253402300800) (example_sink 200)"
  using publish_returns_bool [of utc 0 init_state "example_sink 200"]
        publish_returns_bool [of utc 0 init_state "example_sink 201"]
        publish_returns_bool [of utc 0 init_state "example_sink 500"]
        publish_returns_bool [of utc 0 init_state failing_sink]
        publish_returns_bool [of utc 0 "single_registry 253402300800" "example_sink 200"]
  by (simp add: example_sink_def failing_sink_def prepare_display_data_cases
      online_empty_registry online_far_future)

subsection \<open>Connection Lifecycle Manager\<close>

lemma on_node_updated_interface [simp]: "interface (on_node_updated s p) = interface s"
  by (simp add: on_node_updated_def Let_def)

lemma foldl_on_node_updated_interface [simp]:
  "interface (foldl on_node_updated s ps) = interface s"
  by (induction ps arbitrary: s) simp_all

lemma update_node_data_interface [simp]: "interface (update_node_data s ps) = interface s"
  by (simp add: update_node_data_def)

lemma signal_fields [simp]:
  "connect_calls (signal e l) = connect_calls l"
  "reconnect_attempts (signal e l) = reconnect_attempts l"
  "interface (ls_self (signal e l)) = interface (ls_self l)"
  "\<not> e_signalled e \<Longrightarrow> signal e l = l"
  by (simp_all add: signal_def)

lemma cycle_fields:
  "fst (cycle z e l) = Continue"
  "connect_calls (snd (cycle z e l)) = connect_calls l"
  "reconnect_attempts (snd (cycle z e l)) = reconnect_attempts l"
  "interface (ls_self (snd (cycle z e l))) = interface (ls_self l)"
  by (simp_all add: cycle_def Let_def)

lemma loop_body_fail:
  assumes "\<not> interface (ls_self l)" "\<not> e_connect_ok e"
  shows "loop_body z e l =
     (if MAX_RECONNECT_ATTEMPTS \<le> reconnect_attempts l + 1
      then (Break, l\<lparr>connect_calls := connect_calls l + 1,
                      reconnect_attempts := reconnect_attempts l + 1\<rparr>)
      else (Continue, signal e (l\<lparr>connect_calls := connect_calls l + 1,
                                  reconnect_attempts := reconnect_attempts l + 1\<rparr>)))"
  using assms by (simp add: loop_body_def connect_def Let_def)

lemma loop_body_success:
  assumes "\<not> interface (ls_self l)" "e_connect_ok e"
  shows "reconnect_attempts (snd (loop_body z e l)) = 0
    \<and> interface (ls_self (snd (loop_body z e l)))
    \<and> connect_calls (snd (loop_body z e l)) = connect_calls l + 1
    \<and> fst (loop_body z e l) = Continue"
  using assms by (simp add: loop_body_def connect_def Let_def cycle_fields)

lemma while_running_failures:
  assumes "running (ls_self l)" "\<not> interface (ls_self l)"
    and "reconnect_attempts l + length fs = MAX_RECONNECT_ATTEMPTS" "fs \<noteq> []"
    and "\<forall>e \<in> set fs. \<not> e_connect_ok e" "\<forall>e \<in> set (butlast fs). \<not> e_signalled e"
  shows "\<exists>l'. while_running z (fs @ rest) l = Some l'
    \<and> connect_calls l' = connect_calls l + length fs
    \<and> reconnect_attempts l' = MAX_RECONNECT_ATTEMPTS \<and> ls_self l' = ls_self l"
  using assms
proof (induction fs arbitrary: l)
  case Nil
  then show ?case by simp
next
  case (Cons e fs)
  show ?case
  proof (cases "fs = []")
    case True
    then show ?thesis using Cons.prems by (simp add: loop_body_fail)
  next
    case False
    let ?l2 = "l\<lparr>connect_calls := connect_calls l + 1,
                  reconnect_attempts := reconnect_attempts l + 1\<rparr>"
    from False obtain f fs' where fs: "fs = f # fs'" by (cases fs) auto
    have ns: "\<not> e_signalled e" using Cons.prems(6) fs by simp
    have lt: "\<not> MAX_RECONNECT_ATTEMPTS \<le> reconnect_attempts l + 1"
      using Cons.prems(3) fs by simp
    have step: "while_running z ((e # fs) @ rest) l = while_running z (fs @ rest) ?l2"
      using Cons.prems(1,2,5) ns lt by (simp add: loop_body_fail)
    have "\<exists>l'. while_running z (fs @ rest) ?l2 = Some l'
      \<and> connect_calls l' = connect_calls ?l2 + length fs
      \<and> reconnect_attempts l' = MAX_RECONNECT_ATTEMPTS \<and> ls_self l' = ls_self ?l2"
    proof (rule Cons.IH)
      show "running (ls_self ?l2)" using Cons.prems(1) by simp
      show "\<not> interface (ls_self ?l2)" using Cons.prems(2) by simp
      show "reconnect_attempts ?l2 + length fs = MAX_RECONNECT_ATTEMPTS"
        using Cons.prems(3) by simp
      show "fs \<noteq> []" by (rule False)
      show "\<forall>e \<in> set fs. \<not> e_connect_ok e" using Cons.prems(5) by simp
      show "\<forall>e \<in> set (butlast fs). \<not> e_signalled e" using Cons.prems(6) False by simp
    qed
    then show ?thesis using step by auto
  qed
qed

lemma loop_body_inv:
  assumes "loop_inv l"
  shows "connect_calls (snd (loop_body z e l)) \<le> MAX_RECONNECT_ATTEMPTS
    \<and> (fst (loop_body z e l) = Continue \<longrightarrow> loop_inv (snd (loop_body z e l)))"
proof (cases "interface (ls_self l)")
  case True
  then show ?thesis using assms by (simp add: loop_body_def loop_inv_def cycle_fields)
next
  case False
  show ?thesis
  proof (cases "e_connect_ok e")
    case True
    then show ?thesis using False assms loop_body_success [of l e z]
      by (simp add: loop_inv_def)
  next
    case f: False
    then show ?thesis using False assms
      by (auto simp: loop_body_fail loop_inv_def)
  qed
qed

lemma while_running_calls:
  "loop_inv l \<Longrightarrow> while_running z es l = Some l' \<Longrightarrow> connect_calls l' \<le> MAX_RECONNECT_ATTEMPTS"
proof (induction es arbitrary: l)
  case Nil
  then show ?case by (simp add: loop_inv_def split: if_splits)
next
  case (Cons e es)
  show ?case
  proof (cases "running (ls_self l)")
    case False
    then show ?thesis using Cons.prems by (simp add: loop_inv_def)
  next
    case True
    obtain c l1 where b: "loop_body z e l = (c, l1)" by (cases "loop_body z e l")
    have i: "connect_calls l1 \<le> MAX_RECONNECT_ATTEMPTS \<and> (c = Continue \<longrightarrow> loop_inv l1)"
      using loop_body_inv [OF Cons.prems(1), of z e] b by simp
    show ?thesis
    proof (cases c)
      case Continue
      then show ?thesis using Cons.IH [of l1] Cons.prems(2) True b i by simp
    next
      case Break
      then show ?thesis using Cons.prems(2) True b i by simp
    qed
  qed
qed

text \<open>
  C7. From a state without transport handle, when \<open>connect()\<close> fails in each of the
  first 5 iterations (and no termination signal ends the loop before the fifth), the main
  loop terminates, whatever the later iterations would have met, having called
  \<open>connect()\<close> exactly 5 times. In no run does the loop call \<open>connect()\<close> more than
  5 times. An iteration whose \<open>connect()\<close> succeeds sets \<open>reconnect_attempts\<close> to 0
  (and the transport handle).
\<close>

theorem reconnect_limit:
  "(\<not> interface s \<and> length fs = MAX_RECONNECT_ATTEMPTS
      \<and> (\<forall>e \<in> set fs. \<not> e_connect_ok e) \<and> (\<forall>e \<in> set (butlast fs). \<not> e_signalled e)
      \<longrightarrow> (\<exists>l. run_update_loop z (fs @ rest) s = Some l
             \<and> connect_calls l = 5 \<and> reconnect_attempts l = 5 \<and> \<not> running (ls_self l)))
   \<and> (run_update_loop z es s = Some l' \<longrightarrow> connect_calls l' \<le> 5)
   \<and> (\<not> interface (ls_self l0) \<and> e_connect_ok e
      \<longrightarrow> reconnect_attempts (snd (loop_body z e l0)) = 0
        \<and> interface (ls_self (snd (loop_body z e l0))))"
proof -
  let ?l = "\<lparr>ls_self = s\<lparr>running := True\<rparr>, reconnect_attempts = 0, connect_calls = 0\<rparr>"
  have a: "\<not> interface s \<and> length fs = MAX_RECONNECT_ATTEMPTS
      \<and> (\<forall>e \<in> set fs. \<not> e_connect_ok e) \<and> (\<forall>e \<in> set (butlast fs). \<not> e_signalled e)
      \<longrightarrow> (\<exists>l. run_update_loop z (fs @ rest) s = Some l
             \<and> connect_calls l = 5 \<and> reconnect_attempts l = 5 \<and> \<not> running (ls_self l))"
  proof (intro impI)
    assume h: "\<not> interface s \<and> length fs = MAX_RECONNECT_ATTEMPTS
      \<and> (\<forall>e \<in> set fs. \<not> e_connect_ok e) \<and> (\<forall>e \<in> set (butlast fs). \<not> e_signalled e)"
    then have ne: "fs \<noteq> []" by (auto simp: MAX_RECONNECT_ATTEMPTS_def)
    have "\<exists>l'. while_running z (fs @ rest) ?l = Some l'
      \<and> connect_calls l' = connect_calls ?l + length fs
      \<and> reconnect_attempts l' = MAX_RECONNECT_ATTEMPTS \<and> ls_self l' = ls_self ?l"
      using h ne by (intro while_running_failures) simp_all
    then show "\<exists>l. run_update_loop z (fs @ rest) s = Some l
             \<and> connect_calls l = 5 \<and> reconnect_attempts l = 5 \<and> \<not> running (ls_self l)"
      using h by (auto simp: run_update_loop_def disconnect_def MAX_RECONNECT_ATTEMPTS_def)
  qed
  have "loop_inv ?l" by (simp add: loop_inv_def MAX_RECONNECT_ATTEMPTS_def)
  then have b: "run_update_loop z es s = Some l' \<longrightarrow> connect_calls l' \<le> 5"
    using while_running_calls [of ?l z es]
    by (auto simp: run_update_loop_def MAX_RECONNECT_ATTEMPTS_def)
  have c: "\<not> interface (ls_self l0) \<and> e_connect_ok e
      \<longrightarrow> reconnect_attempts (snd (loop_body z e l0)) = 0
        \<and> interface (ls_self (snd (loop_body z e l0)))"
    using loop_body_success [of l0 e z] by simp
  from a b c show ?thesis by blast
qed

theorem reconnect_limit_witness:
  "length example_failures = MAX_RECONNECT_ATTEMPTS
   \<and> map_option connect_calls
        (run_update_loop utc (example_failures @ [example_env True False]) init_state) = Some 5
   \<and> map_option (\<lambda>l. running (ls_self l))
        (run_update_loop utc (example_failures @ [example_env True False]) init_state) = Some False
   \<and> reconnect_attempts (snd (loop_body utc (example_env True False)
        \<lparr>ls_self = init_state, reconnect_attempts = 3, connect_calls = 3\<rparr>)) = 0"
  using reconnect_limit [of init_state example_failures utc
      "[example_env True False]" "[]"
      "\<lparr>ls_self = init_state, reconnect_attempts = 0, connect_calls = 0\<rparr>"
      "\<lparr>ls_self = init_state, reconnect_attempts = 3, connect_calls = 3\<rparr>"
      "example_env True False"]
  by (auto simp: init_state_def example_env_def example_failures_def MAX_RECONNECT_ATTEMPTS_def)

subsection \<open>Channel Registry\<close>

text \<open>The entry written for a channel, field by field.\<close>

lemma channel_entry_fields:
  "channel_entry i ch =
     (case ch_settings ch of
        None \<Rightarrow> None
      | Some settings \<Rightarrow>
          if nonblank (case st_name settings of
                         None \<Rightarrow> ''Channel '' @ str_nat i
                       | Some name \<Rightarrow> name)
          then Some \<lparr>c_index = i,
                     c_name = (case st_name settings of
                                 None \<Rightarrow> ''Channel '' @ str_nat i
                               | Some name \<Rightarrow> name),
                     c_psk = (case st_psk settings of None \<Rightarrow> False | Some key \<Rightarrow> key \<noteq> []),
                     c_role = (case ch_role ch of None \<Rightarrow> ''secondary'' | Some r \<Rightarrow> r)\<rparr>
          else None)"
  by (simp add: channel_entry_def Let_def split: option.splits)

lemma has_name_entry:
  "has_name chs i \<longleftrightarrow> i < length chs \<and> channel_entry i (chs ! i) \<noteq> None"
  by (auto simp: has_name_def channel_entry_fields split: option.splits)

lemma reported_from_ge: "(j, c) \<in> set (reported_from i chs) \<Longrightarrow> i \<le> j"
  by (induction chs arbitrary: i) (fastforce split: option.splits)+

lemma reported_from_notin: "j < i \<Longrightarrow> j \<notin> fst ` set (reported_from i chs)"
  using reported_from_ge by fastforce

lemma map_of_reported_from:
  "map_of (reported_from i chs) j
     = (if i \<le> j \<and> j < i + length chs then channel_entry j (chs ! (j - i)) else None)"
proof (induction chs arbitrary: i)
  case Nil
  show ?case by auto
next
  case (Cons ch chs)
  have n: "map_of (reported_from (Suc i) chs) i = None"
    using reported_from_notin [of i "Suc i" chs] by (simp add: map_of_eq_None_iff)
  show ?case
  proof (cases "j = i")
    case True
    then show ?thesis using n by (simp split: option.splits)
  next
    case False
    have "i \<le> j \<Longrightarrow> j - i = Suc (j - Suc i)" using False by simp
    then show ?thesis using False Cons.IH [of "Suc i"]
      by (auto split: option.splits)
  qed
qed

lemma map_of_reported:
  "map_of (reported_from 0 chs) j
     = (if has_name chs j then channel_entry j (chs ! j) else None)"
  by (auto simp: map_of_reported_from has_name_entry)

lemma reported_Nil_iff: "reported_from 0 chs = [] \<longleftrightarrow> (\<forall>j. \<not> has_name chs j)"
proof -
  have "reported_from 0 chs = [] \<longleftrightarrow> (\<forall>j. map_of (reported_from 0 chs) j = None)"
    using map_of_eq_empty_iff [of "reported_from 0 chs"] by (auto simp: fun_eq_iff)
  also have "\<dots> \<longleftrightarrow> (\<forall>j. \<not> has_name chs j)"
    by (auto simp: map_of_reported has_name_entry)
  finally show ?thesis .
qed

lemma keys_reported_from:
  "map fst (reported_from i chs)
     = filter (\<lambda>j. channel_entry j (chs ! (j - i)) \<noteq> None) [i..<i + length chs]"
proof (induction chs arbitrary: i)
  case Nil
  show ?case by simp
next
  case (Cons ch chs)
  have u: "[i..<i + length (ch # chs)] = i # [Suc i..<Suc i + length chs]"
    using upt_conv_Cons [of i "Suc (i + length chs)"] by (simp del: upt_Suc)
  have f: "filter (\<lambda>j. channel_entry j ((ch # chs) ! (j - i)) \<noteq> None)
             [Suc i..<Suc i + length chs]
           = filter (\<lambda>j. channel_entry j (chs ! (j - Suc i)) \<noteq> None)
               [Suc i..<Suc i + length chs]"
  proof (rule filter_cong [OF refl])
    fix j
    assume "j \<in> set [Suc i..<Suc i + length chs]"
    then have "j - i = Suc (j - Suc i)" by auto
    then show "(channel_entry j ((ch # chs) ! (j - i)) \<noteq> None)
               = (channel_entry j (chs ! (j - Suc i)) \<noteq> None)"
      by simp
  qed
  show ?case unfolding u using Cons.IH [of "Suc i"] f by (simp split: option.splits)
qed

lemma keys_reported:
  "map fst (reported_from 0 chs) = filter (has_name chs) [0..<length chs]"
proof -
  have "filter (\<lambda>j. channel_entry j (chs ! (j - 0)) \<noteq> None) [0..<0 + length chs]
        = filter (has_name chs) [0..<length chs]"
    by (rule filter_cong) (simp_all add: has_name_entry)
  then show ?thesis using keys_reported_from [of 0 chs] by simp
qed

lemma scan_channels_found:
  "snd (scan_channels i chs (reg, f)) = f + length (reported_from i chs)"
  by (induction chs arbitrary: i reg f) (auto split: option.splits)

lemma scan_channels_map_of:
  "map_of (fst (scan_channels i chs (reg, f))) k
     = (case map_of (reported_from i chs) k of None \<Rightarrow> map_of reg k | Some c \<Rightarrow> Some c)"
proof (induction chs arbitrary: i reg f)
  case Nil
  show ?case by simp
next
  case (Cons ch chs)
  show ?case
  proof (cases "channel_entry i ch")
    case None
    then show ?thesis using Cons.IH by simp
  next
    case (Some c)
    have "i \<notin> fst ` set (reported_from (Suc i) chs)"
      by (rule reported_from_notin) simp
    then have "map_of (reported_from (Suc i) chs) i = None"
      by (simp add: map_of_eq_None_iff)
    then show ?thesis using Some Cons.IH by (simp add: update_conv' split: option.splits)
  qed
qed

lemma update_fresh: "k \<notin> fst ` set reg \<Longrightarrow> AList.update k v reg = reg @ [(k, v)]"
  by (induction reg) auto

lemma scan_channels_fresh:
  "\<forall>k \<in> fst ` set reg. k < i \<Longrightarrow>
   fst (scan_channels i chs (reg, f)) = reg @ reported_from i chs"
proof (induction chs arbitrary: i reg f)
  case Nil
  show ?case by simp
next
  case (Cons ch chs)
  show ?case
  proof (cases "channel_entry i ch")
    case None
    have "\<forall>k \<in> fst ` set reg. k < Suc i" using Cons.prems by auto
    then show ?thesis using None Cons.IH by simp
  next
    case (Some c)
    have u: "AList.update i c reg = reg @ [(i, c)]"
      using Cons.prems by (intro update_fresh) auto
    have "\<forall>k \<in> fst ` set (reg @ [(i, c)]). k < Suc i" using Cons.prems by auto
    then show ?thesis using Some u Cons.IH [of "reg @ [(i, c)]" "Suc i"] by simp
  qed
qed

lemma update_channel_data_eq:
  assumes "interface s"
  shows "channels (update_channel_data s report)
     = (if reported_from 0 (channels_of report) = []
        then AList.update 0 default_channel
               (fst (scan_channels 0 (channels_of report) (channels s, 0)))
        else fst (scan_channels 0 (channels_of report) (channels s, 0)))"
  using assms
  by (simp add: update_channel_data_def channels_of_def case_prod_beta scan_channels_found
      split: option.splits)

lemma update_not_Nil: "AList.update k v xs \<noteq> []"
  by (cases xs) auto

lemma scan_channels_not_Nil:
  assumes "reported_from i chs \<noteq> []"
  shows "fst (scan_channels i chs (reg, f)) \<noteq> []"
proof -
  from assms obtain j c where "(j, c) \<in> set (reported_from i chs)"
    by (cases "reported_from i chs") auto
  then have "map_of (reported_from i chs) j \<noteq> None"
    using weak_map_of_SomeI by fastforce
  then have "map_of (fst (scan_channels i chs (reg, f))) j \<noteq> None"
    by (auto simp: scan_channels_map_of)
  then show ?thesis by auto
qed

text \<open>The registry after a refresh, index by index.\<close>

lemma update_channel_data_map_of:
  assumes "interface s"
  shows "map_of (channels (update_channel_data s report)) i
     = (if has_name (channels_of report) i then channel_entry i (channels_of report ! i)
        else if i = 0 \<and> (\<forall>j. \<not> has_name (channels_of report) j) then Some default_channel
        else map_of (channels s) i)"
proof (cases "\<forall>j. \<not> has_name (channels_of report) j")
  case True
  then have "reported_from 0 (channels_of report) = []" by (simp add: reported_Nil_iff)
  then show ?thesis using True assms
    by (simp add: update_channel_data_eq update_conv' scan_channels_map_of)
next
  case False
  then have "reported_from 0 (channels_of report) \<noteq> []" by (simp add: reported_Nil_iff)
  then show ?thesis using False assms
    by (auto simp: update_channel_data_eq scan_channels_map_of map_of_reported has_name_entry
        split: option.splits)
qed

text \<open>
  C8, as stated, fails: \<open>update_channel_data\<close> never clears \<open>self.channels\<close>. After a
  refresh that reported the channels \<open>A\<close> and \<open>B\<close>, a refresh that reports \<open>A\<close> only
  leaves the entry of \<open>B\<close> at index 1, and a refresh that reports no channel leaves it
  beside the default channel.
\<close>

theorem channel_refresh_counterexample:
  "channels (update_channel_data
      (update_channel_data connected_state
         (Some (Some [example_channel ''A'', example_channel ''B''])))
      (Some (Some [example_channel ''A''])))
     = [(0, \<lparr>c_index = 0, c_name = ''A'', c_psk = True, c_role = ''secondary''\<rparr>),
        (1, \<lparr>c_index = 1, c_name = ''B'', c_psk = True, c_role = ''secondary''\<rparr>)]
   \<and> channels_of (Some (Some [example_channel ''A''])) = [example_channel ''A'']
   \<and> \<not> has_name (channels_of (Some (Some [example_channel ''A'']))) 1
   \<and> channels (update_channel_data
      (update_channel_data connected_state
         (Some (Some [example_channel ''A'', example_channel ''B''])))
      (Some (Some [])))
     = [(0, \<lparr>c_index = 0, c_name = ''Default'', c_psk = True, c_role = ''primary''\<rparr>),
        (1, \<lparr>c_index = 1, c_name = ''B'', c_psk = True, c_role = ''secondary''\<rparr>)]"
  by (simp add: update_channel_data_def connected_state_def connect_def init_state_def
      example_channel_def channel_entry_def channels_of_def has_name_def nonblank_def
      strip_def py_isspace_def default_channel_def Let_def)

text \<open>
  C8, amended. A refresh with a transport handle writes every reported channel that has
  settings and a name that is not blank: the entry at its index \<open>i\<close> is afterwards the
  record of that channel (index \<open>i\<close>; its name, \<open>Channel i\<close> when the settings have
  none; whether its key is non-empty; its role, \<open>secondary\<close> when it has none). When
  some channel is written, the entries at all other indices stay as they were (the
  registry is not cleared). When the transport reports no such channel, the entry at
  index 0 is overwritten with the synthetic default channel (index 0, name \<open>Default\<close>,
  with key, primary) and the other entries stay. The registry is never empty afterwards,
  and when it was empty before, its indices are afterwards exactly those of the written
  channels, in ascending order, or index 0 alone.
\<close>

theorem channel_refresh_upserts:
  assumes "interface s"
  shows "(\<forall>i settings.
            i < length (channels_of report)
            \<and> ch_settings (channels_of report ! i) = Some settings
            \<and> nonblank (case st_name settings of
                          None \<Rightarrow> ''Channel '' @ str_nat i
                        | Some name \<Rightarrow> name)
            \<longrightarrow> map_of (channels (update_channel_data s report)) i
                  = Some \<lparr>c_index = i,
                          c_name = (case st_name settings of
                                      None \<Rightarrow> ''Channel '' @ str_nat i
                                    | Some name \<Rightarrow> name),
                          c_psk = (case st_psk settings of
                                     None \<Rightarrow> False
                                   | Some key \<Rightarrow> key \<noteq> []),
                          c_role = (case ch_role (channels_of report ! i) of
                                      None \<Rightarrow> ''secondary''
                                    | Some r \<Rightarrow> r)\<rparr>)
    \<and> ((\<exists>j. has_name (channels_of report) j)
         \<longrightarrow> (\<forall>i. \<not> has_name (channels_of report) i
                \<longrightarrow> map_of (channels (update_channel_data s report)) i
                      = map_of (channels s) i))
    \<and> ((\<forall>j. \<not> has_name (channels_of report) j)
         \<longrightarrow> map_of (channels (update_channel_data s report))
               = (map_of (channels s))
                   (0 \<mapsto> \<lparr>c_index = 0, c_name = ''Default'', c_psk = True,
                           c_role = ''primary''\<rparr>))
    \<and> channels (update_channel_data s report) \<noteq> []
    \<and> (channels s = []
         \<longrightarrow> map fst (channels (update_channel_data s report))
               = (if \<exists>j. has_name (channels_of report) j
                  then filter (has_name (channels_of report))
                         [0..<length (channels_of report)]
                  else [0]))"
proof -
  let ?chs = "channels_of report"
  let ?s' = "update_channel_data s report"
  note m = update_channel_data_map_of [OF assms, of report]
  have a: "\<forall>i settings.
            i < length ?chs \<and> ch_settings (?chs ! i) = Some settings
            \<and> nonblank (case st_name settings of
                          None \<Rightarrow> ''Channel '' @ str_nat i
                        | Some name \<Rightarrow> name)
            \<longrightarrow> map_of (channels ?s') i
                  = Some \<lparr>c_index = i,
                          c_name = (case st_name settings of
                                      None \<Rightarrow> ''Channel '' @ str_nat i
                                    | Some name \<Rightarrow> name),
                          c_psk = (case st_psk settings of
                                     None \<Rightarrow> False
                                   | Some key \<Rightarrow> key \<noteq> []),
                          c_role = (case ch_role (?chs ! i) of
                                      None \<Rightarrow> ''secondary''
                                    | Some r \<Rightarrow> r)\<rparr>"
    by (auto simp: m has_name_def channel_entry_fields)
  have b: "(\<exists>j. has_name ?chs j)
         \<longrightarrow> (\<forall>i. \<not> has_name ?chs i \<longrightarrow> map_of (channels ?s') i = map_of (channels s) i)"
    by (auto simp: m)
  have c: "(\<forall>j. \<not> has_name ?chs j)
         \<longrightarrow> map_of (channels ?s')
               = (map_of (channels s))
                   (0 \<mapsto> \<lparr>c_index = 0, c_name = ''Default'', c_psk = True,
                           c_role = ''primary''\<rparr>)"
    by (auto simp: m fun_eq_iff default_channel_def)
  have d: "channels ?s' \<noteq> []"
    using assms by (simp add: update_channel_data_eq update_not_Nil scan_channels_not_Nil)
  have e: "channels s = []
         \<longrightarrow> map fst (channels ?s')
               = (if \<exists>j. has_name ?chs j then filter (has_name ?chs) [0..<length ?chs]
                  else [0])"
  proof (cases "reported_from 0 ?chs = []")
    case True
    then have "\<not> (\<exists>j. has_name ?chs j)" by (simp add: reported_Nil_iff)
    then show ?thesis using True assms scan_channels_fresh [of "[]" 0 ?chs 0]
      by (simp add: update_channel_data_eq)
  next
    case False
    then have "\<exists>j. has_name ?chs j" by (simp add: reported_Nil_iff)
    then show ?thesis using False assms scan_channels_fresh [of "[]" 0 ?chs 0]
      by (simp add: update_channel_data_eq keys_reported)
  qed
  from a b c d e show ?thesis by blast
qed

theorem channel_refresh_upserts_witness:
  "interface connected_state
   \<and> channels (update_channel_data connected_state
        (Some (Some [example_channel ''A'', example_channel ''  '', example_channel ''B''])))
       = [(0, \<lparr>c_index = 0, c_name = ''A'', c_psk = True, c_role = ''secondary''\<rparr>),
          (2, \<lparr>c_index = 2, c_name = ''B'', c_psk = True, c_role = ''secondary''\<rparr>)]
   \<and> channels (update_channel_data connected_state None)
       = [(0, \<lparr>c_index = 0, c_name = ''Default'', c_psk = True, c_role = ''primary''\<rparr>)]"
  using channel_refresh_upserts [of connected_state
          "Some (Some [example_channel ''A'', example_channel ''  '', example_channel ''B''])"]
        channel_refresh_upserts [of connected_state None]
  by (simp add: update_channel_data_def connected_state_def connect_def init_state_def
      example_channel_def channel_entry_def channels_of_def has_name_def nonblank_def
      strip_def py_isspace_def default_channel_def Let_def)

end
